theory Spec2Isabelle
  imports Main "HOL-Library.Char_ord" "HOL-Library.List_Lexorder" "HOL-Library.Sublist"
begin

section \<open>Reddit-to-Telegram relay: a shallow embedding of \<^verbatim>\<open>reddit_to_telegram.py\<close>\<close>

text \<open>
  The theory follows the class \<^verbatim>\<open>RedditToTelegramBot\<close> method by method.

  \<^item> Python strings are \<^typ>\<open>string\<close> (byte strings: a non-ASCII code point is its UTF-8
    bytes); the character tests (\<^verbatim>\<open>lower\<close>, \<^verbatim>\<open>isupper\<close>, whitespace) are Python's on
    ASCII. An \<^verbatim>\<open>Optional[str]\<close> is a \<^typ>\<open>string option\<close>, and Python truthiness
    (\<^verbatim>\<open>if x:\<close>) of such a value is \<open>truthy\<close>: neither \<^verbatim>\<open>None\<close> nor the empty string.
  \<^item> A dictionary that comes from outside (the attributes of a post, the configuration file)
    has an option-valued field for each key the source uses: \<^verbatim>\<open>in\<close> and \<^verbatim>\<open>.get\<close> test it,
    and subscripting an absent key raises \<^verbatim>\<open>KeyError\<close>. The values have the types the Reddit
    API and the sample configuration give them (URLs are strings, sizes are integers). The
    records of the failure queue are the ones the program itself wrote: all their keys exist;
    the queue itself need not be a list (see \<open>bot\<close>).
  \<^item> An exception is a value of \<open>exn\<close>; a computation that may raise returns
    \<open>exn + 'a\<close>, and each \<^verbatim>\<open>try\<close>/\<^verbatim>\<open>except\<close> of the source is a case distinction on it.
  \<^item> Everything outside the process (network, file system, subprocess, clock, feed) is a field
    of the record \<open>world\<close>: the outcome of an external call is read from an oracle at the
    current time, which is the number of external calls made so far, and the call is appended
    to the trace. Logging is not modelled.
\<close>

subsection \<open>Exceptions and Python string operations\<close>

datatype exn =
    KeyError | IndexError | AttributeError | FileNotFoundError | OSError | JSONDecodeError
  | RequestException | TimeoutExpired | OtherError

definition truthy :: "string option \<Rightarrow> bool" where
  "truthy v = (case v of None \<Rightarrow> False | Some s \<Rightarrow> s \<noteq> [])"

text \<open>\<^verbatim>\<open>a or b\<close> on optional strings: the first operand when it is truthy, else the second.\<close>

definition py_or :: "string option \<Rightarrow> string option \<Rightarrow> string option" where
  "py_or a b = (if truthy a then a else b)"

definition lower_char :: "char \<Rightarrow> char" where
  "lower_char c =
     (case map_of (zip ''ABCDEFGHIJKLMNOPQRSTUVWXYZ'' ''abcdefghijklmnopqrstuvwxyz'') c of
        Some d \<Rightarrow> d
      | None \<Rightarrow> c)"

definition lower :: "string \<Rightarrow> string" where
  "lower s = map lower_char s"

definition isupper :: "char \<Rightarrow> bool" where
  "isupper c = (CHR ''A'' \<le> c \<and> c \<le> CHR ''Z'')"

definition isspace :: "char \<Rightarrow> bool" where
  "isspace c = (c = CHR '' '' \<or> (CHR 0x09 \<le> c \<and> c \<le> CHR 0x0D) \<or> (CHR 0x1C \<le> c \<and> c \<le> CHR 0x1F))"

text \<open>\<^verbatim>\<open>sub in s\<close>: \<open>sub\<close> occurs in \<open>s\<close> as a contiguous substring.\<close>

fun contains :: "string \<Rightarrow> string \<Rightarrow> bool" where
  "contains [] sub = (sub = [])"
| "contains (c # cs) sub = (prefix sub (c # cs) \<or> contains cs sub)"

text \<open>\<^verbatim>\<open>any(x in s for x in xs)\<close>.\<close>

definition contains_any :: "string \<Rightarrow> string list \<Rightarrow> bool" where
  "contains_any s subs = list_ex (contains s) subs"

text \<open>
  \<^verbatim>\<open>s.replace(old, new)\<close> for a non-empty \<open>old\<close> (the source calls it with
  \<^verbatim>\<open>'&amp;'\<close> and \<^verbatim>\<open>'.mp4'\<close> only): occurrences are replaced from the left and do not
  overlap; the counter is the number of characters of a matched occurrence still to skip.
\<close>

fun replace_from :: "string \<Rightarrow> string \<Rightarrow> nat \<Rightarrow> string \<Rightarrow> string" where
  "replace_from old new k [] = []"
| "replace_from old new (Suc k) (c # cs) = replace_from old new k cs"
| "replace_from old new 0 (c # cs) =
     (if prefix old (c # cs) then new @ replace_from old new (length old - 1) cs
      else c # replace_from old new 0 cs)"

definition replace :: "string \<Rightarrow> string \<Rightarrow> string \<Rightarrow> string" where
  "replace s old new = replace_from old new 0 s"

text \<open>\<^verbatim>\<open>s.split('?')[0]\<close>: the part before the first question mark.\<close>

definition before_query :: "string \<Rightarrow> string" where
  "before_query s = takeWhile (\<lambda>c. c \<noteq> CHR ''?'') s"

definition strip :: "string \<Rightarrow> string" where
  "strip s = rev (dropWhile isspace (rev (dropWhile isspace s)))"

text \<open>\<^verbatim>\<open>s.split()\<close>: the maximal runs of non-whitespace characters.\<close>

fun split_ws :: "string \<Rightarrow> string \<Rightarrow> string list" where
  "split_ws cur [] = (if cur = [] then [] else [cur])"
| "split_ws cur (c # cs) =
     (if isspace c then (if cur = [] then split_ws [] cs else cur # split_ws [] cs)
      else split_ws (cur @ [c]) cs)"

definition split :: "string \<Rightarrow> string list" where
  "split s = split_ws [] s"

subsection \<open>The data model\<close>

text \<open>
  A post as the feed delivers it. \<open>media\<close> and \<open>preview\<close> are \<open>None\<close> when the
  attribute is absent, \<^verbatim>\<open>None\<close> or an empty dictionary (the three cases the source's
  \<^verbatim>\<open>hasattr(post, a) and post.a\<close> rejects) and \<open>Some\<close> of a non-empty dictionary otherwise;
  \<open>media_metadata\<close> is the dictionary from media-id to descriptor as an association list,
  empty in the same three cases; \<open>is_video\<close> and \<open>over_18\<close> are false when absent.
\<close>

record image_variant =
  var_x :: "int option"
  var_y :: "int option"
  var_u :: "string option"

record media_info =
  mi_e :: "string option"
  mi_s :: "image_variant option"
  mi_o :: "image_variant list option"
  mi_p :: "image_variant list option"
  mi_hlsUrl :: "string option"
  mi_dashUrl :: "string option"

record reddit_video =
  fallback_url :: "string option"

record oembed =
  thumbnail_url :: "string option"

record media =
  m_reddit_video :: "reddit_video option"
  m_oembed :: "oembed option"

record preview_source =
  src_url :: "string option"

record preview_image =
  img_source :: "preview_source option"

record preview =
  pv_images :: "preview_image list option"
  pv_reddit_video_preview :: "reddit_video option"

record post =
  post_id :: string
  title :: string
  url :: string
  permalink :: string
  is_self :: bool
  over_18 :: bool
  is_video :: bool
  media :: "media option"
  media_metadata :: "(string \<times> media_info) list"
  preview :: "preview option"

text \<open>
  The configuration is the dictionary that \<^verbatim>\<open>json.load\<close> returned from \<^verbatim>\<open>config.json\<close>;
  \<^verbatim>\<open>load_config\<close> does not look at its keys, so each of them may be absent.
\<close>

record telegram_config =
  bot_token :: "string option"
  chat_id :: "string option"

record config =
  telegram :: "telegram_config option"
  subreddits :: "string list option"
  check_interval :: "nat option"
  max_posts_per_check :: "nat option"
  debug_emoji :: "bool option"
  send_text_only_posts :: "bool option"
  bot_link :: "string option"

record failed_msg =
  fm_message :: string
  fm_media_url :: "string option"
  fm_post_url :: "string option"
  fm_timestamp :: string
  retry_count :: int

text \<open>
  The attributes of the bot. \<open>failed_messages\<close> holds the records of
  \<^verbatim>\<open>self.failed_messages\<close>. The constructor sets that attribute to what
  \<^verbatim>\<open>load_failed_messages\<close> returns, and the loader returns the value of \<^verbatim>\<open>json.load\<close>
  without looking at it: after a start from a queue file whose JSON is not a list, the attribute
  is not a list. \<open>queue_is_list\<close> is false in that state. The state is in the model for the
  values that Python takes as false (\<^verbatim>\<open>{}\<close>, \<^verbatim>\<open>null\<close>, \<^verbatim>\<open>false\<close>, \<^verbatim>\<open>0\<close>, \<^verbatim>\<open>""\<close>): like the
  empty list they pass \<^verbatim>\<open>if not self.failed_messages\<close> and hold no record, so
  \<open>failed_messages\<close> is empty there; unlike a list they have no method \<^verbatim>\<open>append\<close>.
\<close>

record bot =
  config :: config
  processed_posts :: "string set"
  failed_messages :: "failed_msg list"
  queue_is_list :: bool

subsection \<open>The world outside the process\<close>

text \<open>
  The requests to the messaging endpoint carry the token and the chat of the configuration;
  an event keeps the part of a request that varies: \<open>SendMessage text\<close>,
  \<open>SendPhoto photo caption\<close>, \<open>SendVideo path caption\<close>.
\<close>

datatype event =
    SendMessage string
  | SendPhoto string string
  | SendVideo string string
  | HttpGet string
  | MkTemp
  | WriteTemp string
  | YtDlp string string
  | YtDlpListFormats string
  | Unlink string
  | SaveProcessed
  | SaveFailed
  | FetchNew string
  | Sleep nat

text \<open>
  A request succeeds (a 2xx answer), fails with a \<^verbatim>\<open>requests.exceptions.RequestException\<close>
  (connection error, timeout, or the \<^verbatim>\<open>HTTPError\<close> that \<^verbatim>\<open>raise_for_status\<close> raises on
  another status), or fails with an exception of another class.
\<close>

datatype http_result = Http2xx | HttpRequestError | HttpOtherError

text \<open>
  A persisted JSON file: absent, present but not readable, present with contents that do
  not parse, or holding a value. Writing it succeeds, fails at \<^verbatim>\<open>open\<close> (the file keeps its
  contents), or fails inside \<^verbatim>\<open>json.dump\<close> (the file is left truncated).
\<close>

datatype 'a json_file = NoFile | Unreadable | Malformed | Stored 'a

datatype write_result = WriteOk | OpenFails | DumpFails

datatype proc_result = Exit int | ProcTimeout | ProcNotFound | ProcError

record world =
  trace :: "event list"
  http :: "nat \<Rightarrow> http_result"
  fs_exists :: "nat \<Rightarrow> string \<Rightarrow> bool"
  fs_open :: "nat \<Rightarrow> string \<Rightarrow> bool"
  fs_write :: "nat \<Rightarrow> write_result"
  fs_unlink :: "nat \<Rightarrow> string \<Rightarrow> bool"
  fs_glob :: "nat \<Rightarrow> string \<Rightarrow> (string \<times> nat) list"
  mktemp :: "nat \<Rightarrow> string option"
  subprocess :: "nat \<Rightarrow> proc_result"
  now :: "nat \<Rightarrow> string"
  feed :: "nat \<Rightarrow> string \<Rightarrow> post list option"
  processed_file :: "string set json_file"
  failed_file :: "failed_msg list json_file"

definition clock :: "world \<Rightarrow> nat" where
  "clock w = length (trace w)"

definition emit :: "world \<Rightarrow> event \<Rightarrow> world" where
  "emit w ev = w\<lparr>trace := trace w @ [ev]\<rparr>"

text \<open>
  \<^verbatim>\<open>requests.post(...)\<close> or \<^verbatim>\<open>requests.get(...)\<close> followed by
  \<^verbatim>\<open>response.raise_for_status()\<close>.
\<close>

definition http_request :: "world \<Rightarrow> event \<Rightarrow> (exn + unit) \<times> world" where
  "http_request w req =
     ((case http w (clock w) of
         Http2xx \<Rightarrow> Inr ()
       | HttpRequestError \<Rightarrow> Inl RequestException
       | HttpOtherError \<Rightarrow> Inl OtherError),
      emit w req)"

text \<open>\<^verbatim>\<open>with open(name, 'r') as f: json.load(f)\<close> and \<^verbatim>\<open>with open(name, 'w') as f: json.dump(v, f)\<close>.\<close>

definition read_json :: "'a json_file \<Rightarrow> exn + 'a" where
  "read_json f =
     (case f of
        NoFile \<Rightarrow> Inl FileNotFoundError
      | Unreadable \<Rightarrow> Inl OSError
      | Malformed \<Rightarrow> Inl JSONDecodeError
      | Stored v \<Rightarrow> Inr v)"

definition write_json :: "write_result \<Rightarrow> 'a \<Rightarrow> 'a json_file \<Rightarrow> (exn + unit) \<times> 'a json_file" where
  "write_json r v f =
     (case r of
        WriteOk \<Rightarrow> (Inr (), Stored v)
      | OpenFails \<Rightarrow> (Inl OSError, f)
      | DumpFails \<Rightarrow> (Inl OSError, Malformed))"

subsection \<open>Persisted state: \<^verbatim>\<open>load_processed_posts\<close> to \<^verbatim>\<open>add_failed_message\<close>\<close>

text \<open>
  \<^verbatim>\<open>load_processed_posts\<close> catches \<^verbatim>\<open>FileNotFoundError\<close> only; every other exception of
  the read leaves the function. The stored JSON array is kept as the set it is loaded into.
\<close>

definition load_processed_posts :: "string set json_file \<Rightarrow> exn + string set" where
  "load_processed_posts f =
     (case read_json f of
        Inr ids \<Rightarrow> Inr ids
      | Inl e \<Rightarrow> (if e = FileNotFoundError then Inr {} else Inl e))"

definition save_processed_posts :: "world \<Rightarrow> bot \<Rightarrow> (exn + unit) \<times> world" where
  "save_processed_posts w b =
     (let (r, f) = write_json (fs_write w (clock w)) (processed_posts b) (processed_file w)
      in (r, (emit w SaveProcessed)\<lparr>processed_file := f\<rparr>))"

text \<open>
  \<^verbatim>\<open>load_failed_messages\<close> reads the file only when \<^verbatim>\<open>os.path.exists\<close> finds it, and
  catches every exception of the read; it returns the empty list in both cases. Here the file
  holds a list of records when it holds a value; what the loader returns is then a list. A file
  with JSON of another shape gives the bot whose \<open>queue_is_list\<close> is false.
\<close>

definition load_failed_messages :: "failed_msg list json_file \<Rightarrow> failed_msg list" where
  "load_failed_messages f =
     (if f \<noteq> NoFile then
        (case read_json f of Inr msgs \<Rightarrow> msgs | Inl e \<Rightarrow> [])
      else [])"

definition save_failed_messages :: "world \<Rightarrow> bot \<Rightarrow> world" where
  "save_failed_messages w b =
     (let (r, f) = write_json (fs_write w (clock w)) (failed_messages b) (failed_file w);
          w' = (emit w SaveFailed)\<lparr>failed_file := f\<rparr>
      in (case r of Inr u \<Rightarrow> w' | Inl e \<Rightarrow> w'))"

text \<open>
  \<^verbatim>\<open>add_failed_message\<close> has no \<^verbatim>\<open>try\<close> of its own:
  \<^verbatim>\<open>self.failed_messages.append(failed_msg)\<close> raises \<^verbatim>\<open>AttributeError\<close> when the attribute is
  not a list, before anything is saved.
\<close>

definition add_failed_message ::
  "world \<Rightarrow> bot \<Rightarrow> string \<Rightarrow> string option \<Rightarrow> string option
   \<Rightarrow> (exn + unit) \<times> world \<times> bot" where
  "add_failed_message w b message media_url post_url =
     (let failed_msg = \<lparr>fm_message = message, fm_media_url = media_url, fm_post_url = post_url,
                        fm_timestamp = now w (clock w), retry_count = 0\<rparr>
      in if \<not> queue_is_list b then (Inl AttributeError, w, b)
         else
           (let b' = b\<lparr>failed_messages := failed_messages b @ [failed_msg]\<rparr>
            in (Inr (), save_failed_messages w b', b')))"

subsection \<open>\<^verbatim>\<open>send_text_message\<close> and \<^verbatim>\<open>retry_failed_messages\<close>\<close>

text \<open>
  \<^verbatim>\<open>self.config['telegram']['bot_token']\<close> and \<^verbatim>\<open>self.config['telegram']['chat_id']\<close>: the
  two subscripts with which \<^verbatim>\<open>send_text_message\<close> and \<^verbatim>\<open>send_telegram_message\<close> begin,
  before their \<^verbatim>\<open>try\<close>.
\<close>

definition telegram_credentials :: "config \<Rightarrow> exn + string \<times> string" where
  "telegram_credentials cfg =
     (case telegram cfg of
        None \<Rightarrow> Inl KeyError
      | Some t \<Rightarrow>
          (case bot_token t of
             None \<Rightarrow> Inl KeyError
           | Some token \<Rightarrow>
               (case chat_id t of
                  None \<Rightarrow> Inl KeyError
                | Some chat \<Rightarrow> Inr (token, chat))))"

definition send_text_message :: "world \<Rightarrow> bot \<Rightarrow> string \<Rightarrow> (exn + bool) \<times> world" where
  "send_text_message w b message =
     (case telegram_credentials (config b) of
        Inl e \<Rightarrow> (Inl e, w)
      | Inr credentials \<Rightarrow>
          (case http_request w (SendMessage message) of
             (Inr u, w') \<Rightarrow> (Inr True, w')
           | (Inl e, w') \<Rightarrow> (Inr False, w')))"

definition NL :: string where
  "NL = [CHR 0x0A]"

definition emoji_link :: string where
  "emoji_link = [CHR 0xF0, CHR 0x9F, CHR 0x94, CHR 0x97]"

definition retry_text :: "failed_msg \<Rightarrow> string" where
  "retry_text failed_msg =
     (if truthy (fm_post_url failed_msg)
      then fm_message failed_msg @ NL @ NL @ emoji_link @ '' [Ver post original]('' @
           the (fm_post_url failed_msg) @ '')''
      else fm_message failed_msg)"

definition bump :: "failed_msg \<Rightarrow> failed_msg" where
  "bump failed_msg = failed_msg\<lparr>retry_count := retry_count failed_msg + 1\<rparr>"

text \<open>
  The body of the \<^verbatim>\<open>try\<close> for the record at index \<open>i\<close>: the record as the body leaves it
  and the indices it appends to \<^verbatim>\<open>messages_to_remove\<close>. The exception that the body can
  raise is the \<^verbatim>\<open>KeyError\<close> of \<^verbatim>\<open>send_text_message\<close>; the handler increments the counter
  as the failed request does.
\<close>

definition retry_try ::
  "world \<Rightarrow> bot \<Rightarrow> nat \<Rightarrow> failed_msg \<Rightarrow> (exn + failed_msg \<times> nat list) \<times> world" where
  "retry_try w b i failed_msg =
     (case send_text_message w b (retry_text failed_msg) of
        (Inl e, w') \<Rightarrow> (Inl e, w')
      | (Inr ok, w') \<Rightarrow>
          (if ok then (Inr (failed_msg, [i]), w')
           else (let m = bump failed_msg
                 in (Inr (m, if retry_count m \<ge> 3 then [i] else []), w'))))"

definition retry_one ::
  "world \<Rightarrow> bot \<Rightarrow> nat \<Rightarrow> failed_msg \<Rightarrow> (failed_msg \<times> nat list) \<times> world" where
  "retry_one w b i failed_msg =
     (case retry_try w b i failed_msg of
        (Inr res, w') \<Rightarrow> (res, w')
      | (Inl e, w') \<Rightarrow>
          (let m = bump failed_msg
           in ((m, if retry_count m \<ge> 3 then [i] else []), w')))"

fun retry_loop ::
  "world \<Rightarrow> bot \<Rightarrow> nat \<Rightarrow> failed_msg list \<Rightarrow> world \<times> failed_msg list \<times> nat list" where
  "retry_loop w b i [] = (w, [], [])"
| "retry_loop w b i (failed_msg # rest) =
     (let ((m, rem), w1) = retry_one w b i failed_msg;
          (w2, ms, rems) = retry_loop w1 b (Suc i) rest
      in (w2, m # ms, rem @ rems))"

text \<open>\<^verbatim>\<open>xs.pop(i)\<close> raises \<^verbatim>\<open>IndexError\<close> out of range; the list keeps the pops done before.\<close>

fun pop_all :: "nat list \<Rightarrow> 'a list \<Rightarrow> (exn + unit) \<times> 'a list" where
  "pop_all [] xs = (Inr (), xs)"
| "pop_all (i # is) xs =
     (if i < length xs then pop_all is (take i xs @ drop (Suc i) xs)
      else (Inl IndexError, xs))"

definition retry_failed_messages :: "world \<Rightarrow> bot \<Rightarrow> (exn + unit) \<times> world \<times> bot" where
  "retry_failed_messages w b =
     (if failed_messages b = [] then (Inr (), w, b)
      else
        (let (w1, ms, messages_to_remove) = retry_loop w b 0 (failed_messages b);
             (r, ms') = pop_all (rev messages_to_remove) ms;
             b' = b\<lparr>failed_messages := ms'\<rparr>
         in (case r of
               Inl e \<Rightarrow> (Inl e, w1, b')
             | Inr u \<Rightarrow>
                 (if messages_to_remove \<noteq> [] then (Inr (), save_failed_messages w1 b', b')
                  else (Inr (), w1, b')))))"

subsection \<open>\<^verbatim>\<open>send_telegram_message\<close>\<close>

definition warning_sign :: string where
  "warning_sign = [CHR 0xE2, CHR 0x9A, CHR 0xA0, CHR 0xEF, CHR 0xB8, CHR 0x8F]"

definition emoji_memo :: string where
  "emoji_memo = [CHR 0xF0, CHR 0x9F, CHR 0x93, CHR 0x9D]"

text \<open>The suffixes of the text fallback, in UTF-8.\<close>

definition nao_pode :: string where
  "nao_pode = '' n'' @ [CHR 0xC3, CHR 0xA3] @ ''o p'' @ [CHR 0xC3, CHR 0xB4] @ ''de ser enviad''"

definition video_suffix :: string where
  "video_suffix = NL @ NL @ warning_sign @ '' V'' @ [CHR 0xC3, CHR 0xAD] @ ''deo'' @ nao_pode @ ''o''"

definition nsfw_suffix :: string where
  "nsfw_suffix = NL @ NL @ warning_sign @ '' Conte'' @ [CHR 0xC3, CHR 0xBA] @ ''do'' @ nao_pode @ ''o''"

definition image_suffix :: "string \<Rightarrow> string" where
  "image_suffix media_url =
     NL @ NL @ warning_sign @ '' Imagem'' @ nao_pode @ ''a'' @ NL @ emoji_link @ '' Link: '' @ media_url"

definition origin_link :: "string option \<Rightarrow> string" where
  "origin_link post_url =
     (if truthy post_url then NL @ emoji_memo @ '' [Ver post original]('' @ the post_url @ '')''
      else [])"

definition photo_extensions :: "string list" where
  "photo_extensions = [''.jpg'', ''.jpeg'', ''.png'', ''.gif'']"

text \<open>
  The body of the outer \<^verbatim>\<open>try\<close>. Opening the video file may raise \<^verbatim>\<open>OSError\<close>; the inner
  handlers catch \<^verbatim>\<open>RequestException\<close> only, so any other exception of a request leaves the
  body, and so does an exception that \<^verbatim>\<open>add_failed_message\<close> raises inside an inner handler.
\<close>

definition send_try ::
  "world \<Rightarrow> bot \<Rightarrow> string \<Rightarrow> string option \<Rightarrow> string option \<Rightarrow> string option \<Rightarrow> bool
   \<Rightarrow> (exn + bool) \<times> world \<times> bot" where
  "send_try w b message media_url video_file_path post_url is_nsfw =
     (if truthy video_file_path \<and> fs_exists w (clock w) (the video_file_path) then
        (if \<not> fs_open w (clock w) (the video_file_path) then (Inl OSError, w, b)
         else
           (case http_request w (SendVideo (the video_file_path) message) of
              (Inr u, w1) \<Rightarrow> (Inr True, w1, b)
            | (Inl e, w1) \<Rightarrow>
                (if e = RequestException then
                   (case add_failed_message w1 b message video_file_path post_url of
                      (Inl e', w2, b2) \<Rightarrow> (Inl e', w2, b2)
                    | (Inr u, w2, b2) \<Rightarrow>
                        (let fallback_message = message @ video_suffix @ origin_link post_url;
                             (r, w3) = send_text_message w2 b2 fallback_message
                         in (r, w3, b2)))
                 else (Inl e, w1, b))))
      else if truthy media_url \<and> contains_any (lower (the media_url)) photo_extensions then
        (case http_request w (SendPhoto (the media_url) message) of
           (Inr u, w1) \<Rightarrow> (Inr True, w1, b)
         | (Inl e, w1) \<Rightarrow>
             (if e = RequestException then
                (case add_failed_message w1 b message media_url post_url of
                   (Inl e', w2, b2) \<Rightarrow> (Inl e', w2, b2)
                 | (Inr u, w2, b2) \<Rightarrow>
                     (let fallback_message =
                            message @ (if is_nsfw then nsfw_suffix else image_suffix (the media_url))
                            @ origin_link post_url;
                          (r, w3) = send_text_message w2 b2 fallback_message
                      in (r, w3, b2)))
              else (Inl e, w1, b)))
      else
        (let (r, w1) = send_text_message w b message in (r, w1, b)))"

text \<open>
  The function reads the credentials first; its \<^verbatim>\<open>try\<close> begins after that. The outer
  handler, \<^verbatim>\<open>except Exception\<close>, enqueues when there is media and returns false; an
  exception that \<^verbatim>\<open>add_failed_message\<close> raises inside this handler leaves the function.
\<close>

definition send_telegram_message ::
  "world \<Rightarrow> bot \<Rightarrow> string \<Rightarrow> string option \<Rightarrow> string option \<Rightarrow> string option \<Rightarrow> bool
   \<Rightarrow> (exn + bool) \<times> world \<times> bot" where
  "send_telegram_message w b message media_url video_file_path post_url is_nsfw =
     (case telegram_credentials (config b) of
        Inl e \<Rightarrow> (Inl e, w, b)
      | Inr credentials \<Rightarrow>
          (case send_try w b message media_url video_file_path post_url is_nsfw of
             (Inr ok, w1, b1) \<Rightarrow> (Inr ok, w1, b1)
           | (Inl e, w1, b1) \<Rightarrow>
               (if truthy media_url \<or> truthy video_file_path then
                  (case add_failed_message w1 b1 message (py_or media_url video_file_path)
                          post_url of
                     (Inl e', w2, b2) \<Rightarrow> (Inl e', w2, b2)
                   | (Inr u, w2, b2) \<Rightarrow> (Inr False, w2, b2))
                else (Inr False, w1, b1))))"

subsection \<open>Image resolution: \<^verbatim>\<open>download_reddit_image\<close>\<close>

text \<open>\<^verbatim>\<open>x.get('x', 0) * x.get('y', 0)\<close>.\<close>

definition area :: "image_variant \<Rightarrow> int" where
  "area v = (case var_x v of Some a \<Rightarrow> a | None \<Rightarrow> 0) * (case var_y v of Some a \<Rightarrow> a | None \<Rightarrow> 0)"

text \<open>\<^verbatim>\<open>max(xs, key=f)\<close> keeps the first of the maximal elements; the source guards the empty list.\<close>

fun max_from :: "('a \<Rightarrow> int) \<Rightarrow> 'a \<Rightarrow> 'a list \<Rightarrow> 'a" where
  "max_from f best [] = best"
| "max_from f best (x # xs) = max_from f (if f x > f best then x else best) xs"

text \<open>
  The \<^verbatim>\<open>if\<close>/\<^verbatim>\<open>elif\<close> chain for an entry tagged \<^verbatim>\<open>Image\<close>: the URL with which the loop
  breaks, or \<open>None\<close> when no branch assigns and the loop goes on to the next media-id.
\<close>

definition image_from_previews :: "media_info \<Rightarrow> string option" where
  "image_from_previews media_info =
     (case mi_p media_info of
        Some (v # vs) \<Rightarrow> var_u (max_from area v vs)
      | _ \<Rightarrow> None)"

definition image_from_original :: "media_info \<Rightarrow> string option" where
  "image_from_original media_info =
     (case mi_o media_info of
        Some (v # vs) \<Rightarrow> (case var_u v of Some u \<Rightarrow> Some u | None \<Rightarrow> image_from_previews media_info)
      | _ \<Rightarrow> image_from_previews media_info)"

definition image_from_info :: "media_info \<Rightarrow> string option" where
  "image_from_info media_info =
     (case mi_s media_info of
        Some v \<Rightarrow> (case var_u v of Some u \<Rightarrow> Some u | None \<Rightarrow> image_from_original media_info)
      | None \<Rightarrow> image_from_original media_info)"

text \<open>The loop over the sorted media-ids; every id is a key of the dictionary.\<close>

fun scan_images :: "(string \<times> media_info) list \<Rightarrow> string list \<Rightarrow> string option" where
  "scan_images md [] = None"
| "scan_images md (media_id # rest) =
     (case map_of md media_id of
        None \<Rightarrow> scan_images md rest
      | Some media_info \<Rightarrow>
          (if mi_e media_info = Some ''Image'' then
             (case image_from_info media_info of
                Some u \<Rightarrow> Some u
              | None \<Rightarrow> scan_images md rest)
           else scan_images md rest))"

definition image_extensions :: "string list" where
  "image_extensions = [''.jpg'', ''.jpeg'', ''.png'', ''.gif'', ''.webp'']"

definition image_from_preview :: "post \<Rightarrow> string option" where
  "image_from_preview post =
     (case preview post of
        Some pv \<Rightarrow>
          (case pv_images pv of
             Some (preview_image # others) \<Rightarrow>
               (case img_source preview_image of
                  Some src \<Rightarrow> src_url src
                | None \<Rightarrow> None)
           | _ \<Rightarrow> None)
      | None \<Rightarrow> None)"

text \<open>
  The three methods assign \<^verbatim>\<open>image_url\<close> in turn; a method that finds nothing leaves the
  variable as it is. No operation of the body raises on a post of this shape, so the
  \<^verbatim>\<open>except\<close> clause has no case here.
\<close>

definition download_reddit_image :: "post \<Rightarrow> string option" where
  "download_reddit_image post =
     (let image_url1 =
            (if media_metadata post \<noteq> []
             then scan_images (media_metadata post) (sort (map fst (media_metadata post)))
             else None);
          image_url2 =
            (if \<not> truthy image_url1 \<and> \<not> is_self post
                \<and> contains_any (lower (url post)) image_extensions
             then Some (url post) else image_url1);
          image_url3 =
            (if \<not> truthy image_url2 \<and> image_from_preview post \<noteq> None
             then image_from_preview post else image_url2)
      in if \<not> truthy image_url3 then None
         else Some (replace (the image_url3) ''&amp;'' ''&''))"

subsection \<open>Video resolution: \<^verbatim>\<open>download_reddit_video\<close> and \<^verbatim>\<open>convert_hls_to_mp4\<close>\<close>

text \<open>\<^verbatim>\<open>d['reddit_video']['fallback_url']\<close> once \<^verbatim>\<open>'reddit_video' in d\<close> holds.\<close>

definition fallback_of :: "reddit_video \<Rightarrow> exn + string option" where
  "fallback_of rv = (case fallback_url rv of Some u \<Rightarrow> Inr (Some u) | None \<Rightarrow> Inl KeyError)"

text \<open>Methods 1 and 2: the post's own \<^verbatim>\<open>media\<close>, for a video post or for a self-text post.\<close>

definition video_from_media :: "post \<Rightarrow> exn + string option" where
  "video_from_media post =
     (if is_video post then
        (case (case media post of
                 Some m \<Rightarrow>
                   (case m_reddit_video m of
                      Some rv \<Rightarrow> fallback_of rv
                    | None \<Rightarrow>
                        (case m_oembed m of
                           Some oe \<Rightarrow> Inr (thumbnail_url oe)
                         | None \<Rightarrow> Inr None))
               | None \<Rightarrow> Inr None) of
           Inl e \<Rightarrow> Inl e
         | Inr video_url \<Rightarrow>
             (if \<not> truthy video_url \<and> contains (url post) ''v.redd.it''
              then Inr (Some (url post @ ''/DASH_720.mp4''))
              else Inr video_url))
      else if is_self post \<and> media post \<noteq> None then
        (case m_reddit_video (the (media post)) of
           Some rv \<Rightarrow> fallback_of rv
         | None \<Rightarrow> Inr None)
      else Inr None)"

text \<open>Method 3: the loop over the sorted media-ids.\<close>

fun scan_videos :: "(string \<times> media_info) list \<Rightarrow> string list \<Rightarrow> string option" where
  "scan_videos md [] = None"
| "scan_videos md (media_id # rest) =
     (case map_of md media_id of
        None \<Rightarrow> scan_videos md rest
      | Some media_info \<Rightarrow>
          (if mi_e media_info = Some ''RedditVideo'' then
             (if mi_hlsUrl media_info \<noteq> None then mi_hlsUrl media_info
              else if mi_dashUrl media_info \<noteq> None then mi_dashUrl media_info
              else scan_videos md rest)
           else scan_videos md rest))"

definition video_from_metadata :: "post \<Rightarrow> string option \<Rightarrow> string option" where
  "video_from_metadata post video_url =
     (if \<not> truthy video_url \<and> media_metadata post \<noteq> [] then
        (case scan_videos (media_metadata post) (sort (map fst (media_metadata post))) of
           Some u \<Rightarrow> Some u
         | None \<Rightarrow> video_url)
      else video_url)"

text \<open>Method 4: the preview.\<close>

definition video_from_preview :: "post \<Rightarrow> string option \<Rightarrow> exn + string option" where
  "video_from_preview post video_url =
     (if \<not> truthy video_url \<and> preview post \<noteq> None then
        (case pv_reddit_video_preview (the (preview post)) of
           Some rv \<Rightarrow> fallback_of rv
         | None \<Rightarrow> Inr video_url)
      else Inr video_url)"

text \<open>The value of \<^verbatim>\<open>video_url\<close> after the four methods.\<close>

definition select_video_url :: "post \<Rightarrow> exn + string option" where
  "select_video_url post =
     (case video_from_media post of
        Inl e \<Rightarrow> Inl e
      | Inr video_url \<Rightarrow> video_from_preview post (video_from_metadata post video_url))"

definition manifest_markers :: "string list" where
  "manifest_markers = [''HLSPlaylist.m3u8'', ''DASHPlaylist.mpd'']"

text \<open>\<^verbatim>\<open>if os.path.exists(name): os.unlink(name)\<close>.\<close>

definition unlink_if_exists :: "world \<Rightarrow> string \<Rightarrow> (exn + unit) \<times> world" where
  "unlink_if_exists w name =
     (if fs_exists w (clock w) name then
        ((if fs_unlink w (clock w) name then Inr () else Inl OSError), emit w (Unlink name))
      else (Inr (), w))"

text \<open>
  The inner \<^verbatim>\<open>try\<close> of \<^verbatim>\<open>convert_hls_to_mp4\<close>, after the temporary file \<open>name\<close> exists: the
  downloader runs on the post's page URL; on exit code 0 the first non-empty file that the
  pattern finds is the result. The handlers of the inner \<^verbatim>\<open>try\<close> remove the temporary file,
  and an exception of that removal leaves the inner statement.
\<close>

definition run_downloader :: "world \<Rightarrow> string \<Rightarrow> string \<Rightarrow> (exn + string option) \<times> world" where
  "run_downloader w name reddit_url =
     (let result = subprocess w (clock w);
          w1 = emit w (YtDlp (replace name ''.mp4'' ''.%(ext)s'') reddit_url)
      in (case result of
            Exit code \<Rightarrow>
              (if code = 0 then
                 (let base_name = replace name ''.mp4'' [];
                      possible_files = fs_glob w1 (clock w1) (base_name @ ''.*'')
                  in (case find (\<lambda>(file_path, nbytes). nbytes > 0) possible_files of
                        Some (file_path, nbytes) \<Rightarrow> (Inr (Some file_path), w1)
                      | None \<Rightarrow> (Inr None, w1)))
               else
                 (let w2 = emit w1 (YtDlpListFormats reddit_url)
                  in (case unlink_if_exists w2 name of
                        (Inr u, w3) \<Rightarrow> (Inr None, w3)
                      | (Inl e, w3) \<Rightarrow>
                          (case unlink_if_exists w3 name of
                             (Inr u, w4) \<Rightarrow> (Inr None, w4)
                           | (Inl e', w4) \<Rightarrow> (Inl e', w4)))))
          | ProcTimeout \<Rightarrow>
              (case unlink_if_exists w1 name of
                 (Inr u, w2) \<Rightarrow> (Inr None, w2)
               | (Inl e, w2) \<Rightarrow> (Inl e, w2))
          | _ \<Rightarrow>
              (case unlink_if_exists w1 name of
                 (Inr u, w2) \<Rightarrow> (Inr None, w2)
               | (Inl e, w2) \<Rightarrow> (Inl e, w2))))"

text \<open>
  The outer \<^verbatim>\<open>try\<close>: an exception that reaches it returns \<^verbatim>\<open>None\<close> after one more
  removal of the temporary file, whose own exception leaves the function.
\<close>

definition convert_hls_to_mp4 :: "world \<Rightarrow> string \<Rightarrow> (exn + string option) \<times> world" where
  "convert_hls_to_mp4 w reddit_url =
     (case mktemp w (clock w) of
        None \<Rightarrow> (Inr None, emit w MkTemp)
      | Some name \<Rightarrow>
          (case run_downloader (emit w MkTemp) name reddit_url of
             (Inr res, w1) \<Rightarrow> (Inr res, w1)
           | (Inl e, w1) \<Rightarrow>
               (if e = FileNotFoundError then (Inr None, w1)
                else
                  (case unlink_if_exists w1 name of
                     (Inr u, w2) \<Rightarrow> (Inr None, w2)
                   | (Inl e', w2) \<Rightarrow> (Inl e', w2)))))"

text \<open>The direct download of a plain file: GET, temporary file, streamed write.\<close>

definition fetch_video :: "world \<Rightarrow> string \<Rightarrow> (exn + string option) \<times> world" where
  "fetch_video w video_url =
     (case http_request w (HttpGet video_url) of
        (Inl e, w1) \<Rightarrow> (Inl e, w1)
      | (Inr u, w1) \<Rightarrow>
          (case mktemp w1 (clock w1) of
             None \<Rightarrow> (Inl OSError, emit w1 MkTemp)
           | Some name \<Rightarrow>
               (let w2 = emit w1 MkTemp
                in (case fs_write w2 (clock w2) of
                      WriteOk \<Rightarrow> (Inr (Some name), emit w2 (WriteTemp name))
                    | _ \<Rightarrow> (Inl OSError, emit w2 (WriteTemp name))))))"

definition download_try :: "world \<Rightarrow> post \<Rightarrow> (exn + string option) \<times> world" where
  "download_try w post =
     (case select_video_url post of
        Inl e \<Rightarrow> (Inl e, w)
      | Inr found \<Rightarrow>
          (if \<not> truthy found then (Inr None, w)
           else
             (let video_url =
                    (if \<not> contains_any (the found) manifest_markers
                     then before_query (the found) else the found)
              in if contains video_url ''HLSPlaylist.m3u8'' \<or> contains video_url ''DASHPlaylist.mpd''
                 then convert_hls_to_mp4 w (url post)
                 else fetch_video w video_url)))"

definition download_reddit_video :: "world \<Rightarrow> post \<Rightarrow> string option \<times> world" where
  "download_reddit_video w post =
     (case download_try w post of
        (Inr res, w') \<Rightarrow> (res, w')
      | (Inl e, w') \<Rightarrow> (None, w'))"

subsection \<open>\<^verbatim>\<open>cleanup_temp_file\<close> and \<^verbatim>\<open>has_media_content\<close>\<close>

definition cleanup_temp_file :: "world \<Rightarrow> string option \<Rightarrow> world" where
  "cleanup_temp_file w file_path =
     (if truthy file_path then
        (case unlink_if_exists w (the file_path) of (Inr u, w') \<Rightarrow> w' | (Inl e, w') \<Rightarrow> w')
      else w)"

definition media_extensions :: "string list" where
  "media_extensions =
     [''.jpg'', ''.jpeg'', ''.png'', ''.gif'', ''.webp'', ''.mp4'', ''.webm'', ''.mov'']"

definition video_domains :: "string list" where
  "video_domains = [''youtube.com'', ''youtu.be'', ''v.redd.it'', ''reddit.com/gallery'']"

definition has_media_content :: "post \<Rightarrow> bool" where
  "has_media_content post =
     (if is_video post then True
      else if media_metadata post \<noteq> [] then True
      else if media post \<noteq> None then True
      else if preview post \<noteq> None then True
      else if \<not> is_self post \<and> url post \<noteq> [] then
        (if contains_any (lower (url post)) media_extensions then True
         else if contains_any (lower (url post)) video_domains then True
         else False)
      else False)"

subsection \<open>The formatter: \<^verbatim>\<open>extract_model_name\<close> and \<^verbatim>\<open>format_post_message\<close>\<close>

text \<open>
  The characters of the class that \<^verbatim>\<open>re.sub\<close> deletes:
  \<^verbatim>\<open>[0-9@#$%^&*()_+=\[\]{};\'": ,.<>?/~`]\<close>. The class holds the blank.
\<close>

definition special_chars :: string where
  "special_chars =
     ''0123456789@#$%^&*()_+=[]{};'' @ [CHR 0x27, CHR 0x22] @ '': ,.<>?/~'' @ [CHR 0x60]"

text \<open>
  \<^verbatim>\<open>re.search(r'^([^|]+)\s*\|', title)\<close>: the pattern is anchored at the start, and the
  greedy group takes every character before the first bar, so there is a match exactly when
  the title has a bar that is not its first character, and group 1 is the title up to that
  bar. The function returns the stripped group, not the cleaned one.
\<close>

definition extract_model_name :: "string \<Rightarrow> string option" where
  "extract_model_name ttl =
     (let group1 = takeWhile (\<lambda>c. c \<noteq> CHR ''|'') ttl
      in if group1 \<noteq> [] \<and> CHR ''|'' \<in> set ttl then
           (let potential_name = strip group1;
                clean_name = filter (\<lambda>c. c \<notin> set special_chars) potential_name;
                words = split clean_name;
                has_proper_name =
                  list_ex (\<lambda>word. isupper (hd word) \<and> length word > 1)
                    (filter (\<lambda>word. word \<noteq> []) words)
            in if has_proper_name then Some potential_name else None)
         else None)"

definition emoji_video :: string where
  "emoji_video = [CHR 0xF0, CHR 0x9F, CHR 0x8E, CHR 0xA5]"

definition emoji_image :: string where
  "emoji_image = [CHR 0xF0, CHR 0x9F, CHR 0x96, CHR 0xBC, CHR 0xEF, CHR 0xB8, CHR 0x8F]"

definition emoji_clapper :: string where
  "emoji_clapper = [CHR 0xF0, CHR 0x9F, CHR 0x8E, CHR 0xAC]"

definition emoji_tv :: string where
  "emoji_tv = [CHR 0xF0, CHR 0x9F, CHR 0x93, CHR 0xBA]"

definition emoji_fire :: string where
  "emoji_fire = [CHR 0xF0, CHR 0x9F, CHR 0x94, CHR 0xA5]"

definition message_tail :: "string \<Rightarrow> string" where
  "message_tail link =
     NL @ NL @ [CHR 0xF0, CHR 0x9F, CHR 0x92, CHR 0x8E]
     @ '' Quer acessar o melhor conte'' @ [CHR 0xC3, CHR 0xBA] @ ''do exclusivo?''
     @ NL @ [CHR 0xF0, CHR 0x9F, CHR 0x8E, CHR 0xAF]
     @ '' *Conte'' @ [CHR 0xC3, CHR 0xBA]
     @ ''do Premium*: Curadoria especial para membros que buscam qualidade e variedade!''
     @ NL @ NL @ [CHR 0xF0, CHR 0x9F, CHR 0x9A, CHR 0x80]
     @ '' *VIP COMPLETO* - [CLIQUE AQUI]('' @ link @ '') ''
     @ [CHR 0xF0, CHR 0x9F, CHR 0x9A, CHR 0x80]"

definition debug_emoji_of :: "config \<Rightarrow> post \<Rightarrow> string" where
  "debug_emoji_of cfg post =
     (if (case debug_emoji cfg of Some v \<Rightarrow> v | None \<Rightarrow> True) then
        (if is_video post then emoji_video
         else if url post \<noteq> [] \<and> \<not> is_self post then
           (if contains_any (lower (url post)) image_extensions then emoji_image
            else if contains_any (lower (url post)) [''.mp4'', ''.webm'', ''.mov''] then emoji_clapper
            else if contains (lower (url post)) ''youtube.com'' \<or> contains (lower (url post)) ''youtu.be''
              then emoji_tv
            else if contains (lower (url post)) ''reddit.com/gallery'' then emoji_image
            else emoji_link)
         else emoji_memo)
      else [])"

definition format_post_message :: "config \<Rightarrow> post \<Rightarrow> string" where
  "format_post_message cfg post =
     (let dbg = debug_emoji_of cfg post;
          model_name = extract_model_name (title post);
          link = (case bot_link cfg of Some l \<Rightarrow> l | None \<Rightarrow> ''https://t.me/seu_bot_aqui'');
          standard_message =
            (if truthy model_name then
               emoji_fire @ '' *'' @ the model_name @ ''* '' @ [CHR 0xE2, CHR 0x80, CHR 0xA2]
               @ '' *COMPLETO NO VIP* '' @ emoji_fire @ message_tail link
             else emoji_fire @ '' *COMPLETO NO VIP* '' @ emoji_fire @ message_tail link)
      in if dbg \<noteq> [] then dbg @ NL @ NL @ standard_message else standard_message)"

subsection \<open>The orchestrator: \<^verbatim>\<open>check_subreddits\<close>\<close>

text \<open>
  The body of the loop over the posts of one subreddit. The \<^verbatim>\<open>continue\<close> of the skip
  leaves the body at once; otherwise the body ends with the checkpoint of the processed set,
  whose write may raise.
\<close>

definition process_post :: "world \<Rightarrow> bot \<Rightarrow> post \<Rightarrow> (exn + unit) \<times> world \<times> bot" where
  "process_post w b post =
     (if post_id post \<notin> processed_posts b then
        (let send_text_only =
               (case send_text_only_posts (config b) of Some v \<Rightarrow> v | None \<Rightarrow> False);
             has_media = has_media_content post
         in if \<not> send_text_only \<and> \<not> has_media then
              (Inr (), w, b\<lparr>processed_posts := insert (post_id post) (processed_posts b)\<rparr>)
            else
              (let is_nsfw = over_18 post;
                   message = format_post_message (config b) post;
                   media_url0 = (if \<not> is_self post then Some (url post) else None);
                   (video_file_path, w1) = download_reddit_video w post;
                   media_url =
                     (if truthy video_file_path then None
                      else if is_nsfw \<or> \<not> is_self post then
                        (let image_url = download_reddit_image post
                         in if truthy image_url then image_url else media_url0)
                      else media_url0);
                   post_url = ''https://reddit.com'' @ permalink post;
                   (r, w2, b2) =
                     send_telegram_message w1 b message media_url video_file_path (Some post_url)
                       is_nsfw
               in (case r of
                     Inl e \<Rightarrow> (Inl e, w2, b2)
                   | Inr success \<Rightarrow>
                       (let w3 = (if truthy video_file_path
                                  then cleanup_temp_file w2 video_file_path else w2);
                            w4 = (if success then emit w3 (Sleep 2) else w3);
                            b4 = (if success
                                  then b2\<lparr>processed_posts :=
                                           insert (post_id post) (processed_posts b2)\<rparr>
                                  else b2)
                        in if card (processed_posts b4) mod 5 = 0 then
                             (let (r', w5) = save_processed_posts w4 b4 in (r', w5, b4))
                           else (Inr (), w4, b4)))))
      else (Inr (), w, b))"

fun process_posts :: "world \<Rightarrow> bot \<Rightarrow> post list \<Rightarrow> (exn + unit) \<times> world \<times> bot" where
  "process_posts w b [] = (Inr (), w, b)"
| "process_posts w b (post # rest) =
     (case process_post w b post of
        (Inl e, w', b') \<Rightarrow> (Inl e, w', b')
      | (Inr u, w', b') \<Rightarrow> process_posts w' b' rest)"

text \<open>
  The loop over the configured subreddits: the feed gives the newest posts, at most
  \<^verbatim>\<open>max_posts_per_check\<close> (default 10); an exception of the fetch or of a post ends the
  work on that subreddit and the loop goes on.
\<close>

fun check_loop :: "world \<Rightarrow> bot \<Rightarrow> string list \<Rightarrow> world \<times> bot" where
  "check_loop w b [] = (w, b)"
| "check_loop w b (subreddit_name # rest) =
     (let limit = (case max_posts_per_check (config b) of Some n \<Rightarrow> n | None \<Rightarrow> 10);
          w1 = emit w (FetchNew subreddit_name)
      in (case feed w (clock w) subreddit_name of
            None \<Rightarrow> check_loop w1 b rest
          | Some posts \<Rightarrow>
              (case process_posts w1 b (take limit posts) of
                 (r, w2, b2) \<Rightarrow> check_loop w2 b2 rest)))"

text \<open>\<^verbatim>\<open>self.config['subreddits']\<close> is read outside the \<^verbatim>\<open>try\<close> of the loop body.\<close>

definition check_subreddits :: "world \<Rightarrow> bot \<Rightarrow> (exn + unit) \<times> world \<times> bot" where
  "check_subreddits w b =
     (case subreddits (config b) of
        None \<Rightarrow> (Inl KeyError, w, b)
      | Some names \<Rightarrow> (let (w', b') = check_loop w b names in (Inr (), w', b')))"

subsection \<open>Notions used to state the properties\<close>

text \<open>The configuration has the credentials of the messaging endpoint.\<close>

definition configured :: "config \<Rightarrow> bool" where
  "configured cfg = (case telegram_credentials cfg of Inr credentials \<Rightarrow> True | Inl e \<Rightarrow> False)"

text \<open>
  A retry at time \<open>k\<close> is delivered when the credentials exist and the request is answered
  with 2xx. The records that a drain leaves in the queue, in closed form: the record tried at
  time \<open>k\<close> stays exactly when its retry was not delivered and its counter plus one is below
  the ceiling, and it stays with the counter incremented. The \<open>k\<close>-th record of the queue
  is tried at time \<open>t + k\<close>.
\<close>

definition delivered :: "config \<Rightarrow> (nat \<Rightarrow> http_result) \<Rightarrow> nat \<Rightarrow> bool" where
  "delivered cfg h k = (configured cfg \<and> h k = Http2xx)"

definition survivors ::
  "config \<Rightarrow> (nat \<Rightarrow> http_result) \<Rightarrow> nat \<Rightarrow> failed_msg list \<Rightarrow> failed_msg list" where
  "survivors cfg h t ms =
     map (\<lambda>(k, m). m\<lparr>retry_count := retry_count m + 1\<rparr>)
       (filter (\<lambda>(k, m). \<not> delivered cfg h k \<and> retry_count m + 1 < 3) (enumerate t ms))"

text \<open>The state after a drain.\<close>

definition drain :: "world \<times> bot \<Rightarrow> world \<times> bot" where
  "drain s = snd (retry_failed_messages (fst s) (snd s))"

text \<open>
  Stated from the words of the specification, for comparison with \<open>extract_model_name\<close>:
  punctuation and digits are stripped from the segment, the blanks between its words stay, and
  the segment is accepted when one of the remaining tokens starts with an uppercase letter and
  has more than one character.
\<close>

definition extract_model_name_as_specified :: "string \<Rightarrow> string option" where
  "extract_model_name_as_specified ttl =
     (let group1 = takeWhile (\<lambda>c. c \<noteq> CHR ''|'') ttl
      in if group1 \<noteq> [] \<and> CHR ''|'' \<in> set ttl then
           (let potential_name = strip group1;
                clean_name =
                  filter (\<lambda>c. c \<notin> set (removeAll (CHR '' '') special_chars)) potential_name;
                words = split clean_name
            in if list_ex (\<lambda>word. isupper (hd word) \<and> length word > 1) words
               then Some potential_name else None)
         else None)"

text \<open>The requests to the messaging endpoint among the events.\<close>

fun is_send :: "event \<Rightarrow> bool" where
  "is_send (SendMessage body) = True"
| "is_send (SendPhoto photo caption) = True"
| "is_send (SendVideo path caption) = True"
| "is_send ev = False"

text \<open>
  A transmission is confirmed between two worlds when the later trace is longer, its last
  event is a request to the messaging endpoint, and that request was answered with 2xx.
\<close>

definition confirmed :: "world \<Rightarrow> world \<Rightarrow> bool" where
  "confirmed w w' =
     (length (trace w) < length (trace w') \<and> is_send (last (trace w'))
      \<and> http w (length (trace w') - 1) = Http2xx)"

text \<open>
  The record that \<^verbatim>\<open>add_failed_message\<close> appends at time \<open>t\<close>, and the world and the bot
  after an enqueue on a queue that is a list.
\<close>

definition failure_record :: "world \<Rightarrow> nat \<Rightarrow> string \<Rightarrow> string option \<Rightarrow> string option \<Rightarrow> failed_msg" where
  "failure_record w t message media_url post_url =
     \<lparr>fm_message = message, fm_media_url = media_url, fm_post_url = post_url,
      fm_timestamp = now w t, retry_count = 0\<rparr>"

definition enqueued ::
  "world \<Rightarrow> bot \<Rightarrow> string \<Rightarrow> string option \<Rightarrow> string option \<Rightarrow> world \<times> bot" where
  "enqueued w b message media_url post_url =
     ((emit w SaveFailed)
        \<lparr>failed_file := snd (write_json (fs_write w (clock w))
            (failed_messages b @ [failure_record w (clock w) message media_url post_url])
            (failed_file w))\<rparr>,
      b\<lparr>failed_messages :=
           failed_messages b @ [failure_record w (clock w) message media_url post_url]\<rparr>)"

subsection \<open>Concrete inputs\<close>

text \<open>
  A world in which the file system and the downloader work and the outcome of the requests
  is the parameter \<open>h\<close>.
\<close>

definition example_world :: "(nat \<Rightarrow> http_result) \<Rightarrow> world" where
  "example_world h =
     \<lparr>trace = [], http = h,
      fs_exists = (\<lambda>t name. True), fs_open = (\<lambda>t name. True),
      fs_write = (\<lambda>t. WriteOk), fs_unlink = (\<lambda>t name. True),
      fs_glob = (\<lambda>t pattern. [(''/tmp/tmpab12.mp4'', 0), (''/tmp/tmpab12.f1.mp4'', 2048)]),
      mktemp = (\<lambda>t. Some ''/tmp/tmpab12.mp4''),
      subprocess = (\<lambda>t. Exit 0),
      now = (\<lambda>t. ''2024-01-01T00:00:00''),
      feed = (\<lambda>t name. Some []),
      processed_file = NoFile, failed_file = NoFile\<rparr>"

definition example_config :: config where
  "example_config =
     \<lparr>telegram = Some \<lparr>bot_token = Some ''123:abc'', chat_id = Some ''-100''\<rparr>,
      subreddits = Some [''pics''], check_interval = Some 300, max_posts_per_check = None,
      debug_emoji = None, send_text_only_posts = None, bot_link = None\<rparr>"

text \<open>A bot whose configuration file has no \<^verbatim>\<open>telegram\<close> section.\<close>

definition unconfigured_bot :: bot where
  "unconfigured_bot =
     \<lparr>config = example_config\<lparr>telegram := None\<rparr>, processed_posts = {}, failed_messages = [],
      queue_is_list = True\<rparr>"

definition example_record :: "int \<Rightarrow> failed_msg" where
  "example_record n =
     \<lparr>fm_message = ''hello'', fm_media_url = Some ''https://i.redd.it/a.jpg'',
      fm_post_url = Some ''https://reddit.com/r/pics/1'',
      fm_timestamp = ''2024-01-01T00:00:00'', retry_count = n\<rparr>"

definition example_bot :: "failed_msg list \<Rightarrow> bot" where
  "example_bot ms =
     \<lparr>config = example_config, processed_posts = {}, failed_messages = ms,
      queue_is_list = True\<rparr>"

text \<open>A bot started from a queue file that holds \<^verbatim>\<open>{}\<close>.\<close>

definition non_list_queue_bot :: bot where
  "non_list_queue_bot = (example_bot [])\<lparr>queue_is_list := False\<rparr>"

text \<open>A link post without media attributes, and a self-text post.\<close>

definition link_post :: "string \<Rightarrow> post" where
  "link_post u =
     \<lparr>post_id = ''p1'', title = ''Ana Maria | Special post'', url = u,
      permalink = ''/r/pics/comments/p1/'', is_self = False, over_18 = False,
      is_video = False, media = None, media_metadata = [], preview = None\<rparr>"

definition text_post :: post where
  "text_post =
     \<lparr>post_id = ''p2'', title = ''a question'', url = ''https://reddit.com/r/pics/comments/p2/'',
      permalink = ''/r/pics/comments/p2/'', is_self = True, over_18 = False,
      is_video = False, media = None, media_metadata = [], preview = None\<rparr>"

text \<open>Posts whose media metadata has two entries of the same kind.\<close>

definition no_info :: media_info where
  "no_info = \<lparr>mi_e = None, mi_s = None, mi_o = None, mi_p = None,
              mi_hlsUrl = None, mi_dashUrl = None\<rparr>"

definition two_videos_post :: post where
  "two_videos_post =
     (link_post ''https://www.reddit.com/gallery/p1'')
       \<lparr>over_18 := True,
        media_metadata :=
          [(''b'', no_info\<lparr>mi_e := Some ''RedditVideo'',
                           mi_hlsUrl := Some ''https://v.redd.it/b/HLSPlaylist.m3u8'',
                           mi_dashUrl := Some ''https://v.redd.it/b/DASHPlaylist.mpd''\<rparr>),
           (''a'', no_info\<lparr>mi_e := Some ''RedditVideo'',
                           mi_dashUrl := Some ''https://v.redd.it/a/DASHPlaylist.mpd''\<rparr>)]\<rparr>"

definition two_images_post :: post where
  "two_images_post =
     (link_post ''https://www.reddit.com/gallery/p1'')
       \<lparr>media_metadata :=
          [(''b'', no_info\<lparr>mi_e := Some ''Image'',
                           mi_s := Some \<lparr>var_x = Some 800, var_y = Some 600,
                                         var_u = Some ''https://preview.redd.it/b.jpg?s=1&amp;t=2''\<rparr>\<rparr>),
           (''a'', no_info\<lparr>mi_e := Some ''Image''\<rparr>)]\<rparr>"

definition one_video_post :: post where
  "one_video_post =
     two_videos_post
       \<lparr>media_metadata :=
          [(''b'', no_info\<lparr>mi_e := Some ''RedditVideo'',
                           mi_hlsUrl := Some ''https://v.redd.it/b/HLSPlaylist.m3u8?a=1'',
                           mi_dashUrl := Some ''https://v.redd.it/b/DASHPlaylist.mpd?a=1''\<rparr>),
           (''a'', no_info\<lparr>mi_e := Some ''RedditVideo''\<rparr>)]\<rparr>"

definition gallery_post :: post where
  "gallery_post =
     two_images_post
       \<lparr>media_metadata :=
          [(''b'', no_info\<lparr>mi_e := Some ''Image'',
                           mi_s := Some \<lparr>var_x = Some 800, var_y = Some 600,
                                         var_u = Some ''https://preview.redd.it/b.jpg''\<rparr>\<rparr>),
           (''a'', no_info\<lparr>mi_e := Some ''Image'',
                           mi_p := Some [\<lparr>var_x = Some 108, var_y = Some 81,
                                          var_u = Some ''https://preview.redd.it/a.jpg?width=108''\<rparr>,
                                         \<lparr>var_x = Some 640, var_y = Some 480,
                                          var_u = Some ''https://preview.redd.it/a.jpg?width=640&amp;s=9''\<rparr>,
                                         \<lparr>var_x = Some 320, var_y = Some 240,
                                          var_u = Some ''https://preview.redd.it/a.jpg?width=320''\<rparr>]\<rparr>)]\<rparr>"

text \<open>
  A post whose first entry tagged \<^verbatim>\<open>Image\<close> carries the empty string as its best-quality
  URL.
\<close>

definition empty_url_post :: post where
  "empty_url_post =
     two_images_post
       \<lparr>media_metadata :=
          [(''b'', no_info\<lparr>mi_e := Some ''Image'',
                           mi_s := Some \<lparr>var_x = Some 800, var_y = Some 600,
                                         var_u = Some ''https://preview.redd.it/b.jpg''\<rparr>\<rparr>),
           (''a'', no_info\<lparr>mi_e := Some ''Image'',
                           mi_s := Some \<lparr>var_x = Some 800, var_y = Some 600,
                                         var_u = Some []\<rparr>\<rparr>)]\<rparr>"

definition hosted_video_post :: post where
  "hosted_video_post =
     (link_post ''https://v.redd.it/abc'')
       \<lparr>is_video := True,
        media := Some \<lparr>m_reddit_video =
                         Some \<lparr>fallback_url = Some ''https://v.redd.it/abc/HLSPlaylist.m3u8?a=1&amp;b=2''\<rparr>,
                       m_oembed = None\<rparr>\<rparr>"

section \<open>Properties\<close>

subsection \<open>The world and the text request\<close>

lemma clock_emit: "clock (emit w ev) = Suc (clock w)"
  by (simp add: clock_def emit_def)

lemma http_emit: "http (emit w ev) = http w"
  by (simp add: emit_def)

lemma telegram_credentials_cases:
  "telegram_credentials cfg = Inl KeyError \<and> \<not> configured cfg
   \<or> (\<exists>credentials. telegram_credentials cfg = Inr credentials) \<and> configured cfg"
  by (auto simp add: telegram_credentials_def configured_def split: option.splits)

lemma send_text_message_eq:
  "send_text_message w b message =
     (if configured (config b)
      then (Inr (http w (clock w) = Http2xx), emit w (SendMessage message))
      else (Inl KeyError, w))"
  using telegram_credentials_cases [of "config b"]
  by (auto simp add: send_text_message_def http_request_def split: http_result.splits)

subsection \<open>The drain of the failure queue\<close>

lemma retry_one_eq:
  "retry_one w b i m =
     ((if delivered (config b) (http w) (clock w) then (m, [i])
       else (bump m, if retry_count m + 1 \<ge> 3 then [i] else [])),
      (if configured (config b) then emit w (SendMessage (retry_text m)) else w))"
  by (simp add: retry_one_def retry_try_def send_text_message_eq bump_def delivered_def Let_def)

lemma pop_all_append:
  "pop_all (as @ bs) xs =
     (case pop_all as xs of (Inr u, ys) \<Rightarrow> pop_all bs ys | (Inl e, ys) \<Rightarrow> (Inl e, ys))"
  by (induction as arbitrary: xs) auto

lemma retry_loop_world:
  "fst (retry_loop w b i ms) =
     w\<lparr>trace := trace w @ (if configured (config b)
                            then map (\<lambda>m. SendMessage (retry_text m)) ms else [])\<rparr>"
proof (induction ms arbitrary: w i)
  case Nil
  show ?case by simp
next
  case (Cons m ms)
  let ?w1 = "if configured (config b) then emit w (SendMessage (retry_text m)) else w"
  have "fst (retry_loop ?w1 b (Suc i) ms)
        = ?w1\<lparr>trace := trace ?w1 @ (if configured (config b)
                                     then map (\<lambda>m. SendMessage (retry_text m)) ms else [])\<rparr>"
    by (rule Cons.IH)
  then show ?case
    by (auto simp add: retry_one_eq emit_def split: prod.splits)
qed

lemma survivors_Cons:
  "survivors cfg h t (m # ms) =
     (if \<not> delivered cfg h t \<and> retry_count m + 1 < 3 then bump m # survivors cfg h (Suc t) ms
      else survivors cfg h (Suc t) ms)"
  by (simp add: survivors_def bump_def)

lemma survivors_unconfigured:
  "\<not> configured cfg \<Longrightarrow> survivors cfg h t ms = survivors cfg h t' ms"
proof (induction ms arbitrary: t t')
  case Nil
  show ?case by (simp add: survivors_def)
next
  case (Cons m ms)
  from Cons.IH [OF Cons.prems, of "Suc t" "Suc t'"] Cons.prems show ?case
    by (simp add: survivors_Cons delivered_def)
qed

text \<open>
  Popping the collected indices, last first, from the list that the loop leaves gives the
  survivors; \<open>pre\<close> stands for the records before index \<open>i\<close>.
\<close>

lemma retry_loop_pop:
  "retry_loop w b i ms = (w', ms', rems) \<Longrightarrow> length pre = i \<Longrightarrow>
   pop_all (rev rems) (pre @ ms') = (Inr (), pre @ survivors (config b) (http w) (clock w) ms)"
proof (induction ms arbitrary: w i w' ms' rems pre)
  case Nil
  then show ?case by (simp add: survivors_def)
next
  case (Cons m ms)
  let ?w1 = "if configured (config b) then emit w (SendMessage (retry_text m)) else w"
  obtain w2 ms2 rems2 where rec: "retry_loop ?w1 b (Suc i) ms = (w2, ms2, rems2)"
    by (cases "retry_loop ?w1 b (Suc i) ms") auto
  define m1 where "m1 = (if delivered (config b) (http w) (clock w) then m else bump m)"
  define rem where "rem = (if delivered (config b) (http w) (clock w) then [i]
                            else if retry_count m + 1 \<ge> 3 then [i] else [])"
  from Cons.prems(1) rec have eqs: "ms' = m1 # ms2" "rems = rem @ rems2"
    by (auto simp: retry_one_eq m1_def rem_def split: if_splits)
  have next_time: "survivors (config b) (http ?w1) (clock ?w1) ms
                   = survivors (config b) (http w) (Suc (clock w)) ms"
    using survivors_unconfigured [of "config b" "http w" "clock w" ms "Suc (clock w)"]
    by (simp add: http_emit clock_emit)
  have "pop_all (rev rems2) ((pre @ [m1]) @ ms2)
        = (Inr (), (pre @ [m1]) @ survivors (config b) (http ?w1) (clock ?w1) ms)"
    using Cons.IH [OF rec, of "pre @ [m1]"] Cons.prems(2) by simp
  then have step: "pop_all (rev rems2) (pre @ m1 # ms2)
        = (Inr (), pre @ m1 # survivors (config b) (http w) (Suc (clock w)) ms)"
    by (simp only: next_time) simp
  show ?case
    using step Cons.prems(2)
    by (auto simp: eqs pop_all_append survivors_Cons rem_def m1_def)
qed

lemma retry_loop_removed:
  "retry_loop w b i ms = (w', ms', rems) \<Longrightarrow>
   length rems + length (survivors (config b) (http w) (clock w) ms) = length ms"
proof (induction ms arbitrary: w i w' ms' rems)
  case Nil
  then show ?case by (simp add: survivors_def)
next
  case (Cons m ms)
  let ?w1 = "if configured (config b) then emit w (SendMessage (retry_text m)) else w"
  obtain w2 ms2 rems2 where rec: "retry_loop ?w1 b (Suc i) ms = (w2, ms2, rems2)"
    by (cases "retry_loop ?w1 b (Suc i) ms") auto
  have next_time: "survivors (config b) (http ?w1) (clock ?w1) ms
                   = survivors (config b) (http w) (Suc (clock w)) ms"
    using survivors_unconfigured [of "config b" "http w" "clock w" ms "Suc (clock w)"]
    by (simp add: http_emit clock_emit)
  have "length rems2 + length (survivors (config b) (http w) (Suc (clock w)) ms) = length ms"
    using Cons.IH [OF rec] by (simp only: next_time)
  with Cons.prems rec show ?case
    by (auto simp: retry_one_eq survivors_Cons split: if_splits)
qed

lemma survivors_bound: "m \<in> set (survivors cfg h t ms) \<Longrightarrow> retry_count m < 3"
  by (auto simp: survivors_def)

lemma survivors_grow:
  "\<forall>m\<in>set ms. c \<le> retry_count m \<Longrightarrow> m' \<in> set (survivors cfg h t ms) \<Longrightarrow> c + 1 \<le> retry_count m'"
  by (auto simp: survivors_def dest!: in_set_enumerate_eq[THEN iffD1])

lemma drain_result:
  "\<exists>w'. retry_failed_messages w b =
          (Inr (), w',
           b\<lparr>failed_messages := survivors (config b) (http w) (clock w) (failed_messages b)\<rparr>)
        \<and> prefix (trace w @ (if configured (config b)
                               then map (\<lambda>m. SendMessage (retry_text m)) (failed_messages b)
                               else [])) (trace w')"
proof (cases "failed_messages b = []")
  case True
  then show ?thesis
    by (simp add: retry_failed_messages_def survivors_def)
next
  case False
  obtain w1 ms rems where loop: "retry_loop w b 0 (failed_messages b) = (w1, ms, rems)"
    by (cases "retry_loop w b 0 (failed_messages b)") auto
  have pop: "pop_all (rev rems) ms
             = (Inr (), survivors (config b) (http w) (clock w) (failed_messages b))"
    using retry_loop_pop [OF loop, of "[]"] by simp
  have w1: "w1 = w\<lparr>trace := trace w @ (if configured (config b)
                     then map (\<lambda>m. SendMessage (retry_text m)) (failed_messages b) else [])\<rparr>"
    using retry_loop_world [of w b 0 "failed_messages b"] loop by simp
  show ?thesis
    using False loop pop w1
    by (simp add: retry_failed_messages_def save_failed_messages_def emit_def Let_def
             split: prod.splits sum.splits)
qed

lemma config_drain: "config (snd (drain s)) = config (snd s)"
  using drain_result [of "fst s" "snd s"] by (auto simp add: drain_def)

lemma drain_counters:
  assumes "\<forall>m \<in> set (failed_messages (snd s)). c \<le> retry_count m"
  shows "\<forall>m \<in> set (failed_messages (snd (drain s))). c + 1 \<le> retry_count m \<and> retry_count m < 3"
proof -
  obtain v where "retry_failed_messages (fst s) (snd s) =
      (Inr (), v, (snd s)\<lparr>failed_messages :=
         survivors (config (snd s)) (http (fst s)) (clock (fst s)) (failed_messages (snd s))\<rparr>)"
    using drain_result [of "fst s" "snd s"] by blast
  then have "failed_messages (snd (drain s))
             = survivors (config (snd s)) (http (fst s)) (clock (fst s)) (failed_messages (snd s))"
    by (simp add: drain_def)
  with assms show ?thesis
    using survivors_grow survivors_bound by metis
qed


text \<open>
  C2. A drain never raises and tries every record of the queue once, in order. The queue it
  leaves consists, in order, of exactly the records whose retry was not delivered and whose
  counter plus one is below 3, each with its counter incremented by exactly one; so a record
  whose counter reaches 3 leaves the queue in that drain, every record left has a counter
  below 3, and a queue whose counters start at 0 or above is empty after three drains: no
  record is tried a fourth time.
\<close>

theorem retry_failed_messages_bounded:
  "\<exists>w'. retry_failed_messages w b =
          (Inr (), w',
           b\<lparr>failed_messages := survivors (config b) (http w) (clock w) (failed_messages b)\<rparr>)
        \<and> prefix (trace w @ (if configured (config b)
                               then map (\<lambda>m. SendMessage (retry_text m)) (failed_messages b)
                               else [])) (trace w')
        \<and> (\<forall>m \<in> set (survivors (config b) (http w) (clock w) (failed_messages b)).
              retry_count m < 3)
        \<and> ((\<forall>m \<in> set (failed_messages b). 0 \<le> retry_count m) \<longrightarrow>
             failed_messages (snd (drain (drain (drain (w, b))))) = [])"
proof -
  obtain w' where 1: "retry_failed_messages w b =
          (Inr (), w',
           b\<lparr>failed_messages := survivors (config b) (http w) (clock w) (failed_messages b)\<rparr>)"
     "prefix (trace w @ (if configured (config b)
                               then map (\<lambda>m. SendMessage (retry_text m)) (failed_messages b)
                               else [])) (trace w')"
    using drain_result [of w b] by blast
  have 2: "\<forall>m \<in> set (survivors (config b) (http w) (clock w) (failed_messages b)).
             retry_count m < 3"
    by (simp add: survivors_bound)
  have 3: "failed_messages (snd (drain (drain (drain (w, b))))) = []"
    if nonneg: "\<forall>m \<in> set (failed_messages b). 0 \<le> retry_count m"
  proof -
    have "\<forall>m \<in> set (failed_messages (snd (drain (w, b)))). 1 \<le> retry_count m"
      using drain_counters [of "(w, b)" 0] nonneg by simp
    then have "\<forall>m \<in> set (failed_messages (snd (drain (drain (w, b))))). 2 \<le> retry_count m"
      using drain_counters [of "drain (w, b)" 1] by simp
    then have "\<forall>m \<in> set (failed_messages (snd (drain (drain (drain (w, b)))))).
                 3 \<le> retry_count m \<and> retry_count m < 3"
      using drain_counters [of "drain (drain (w, b))" 2] by simp
    then have none: "\<And>m. m \<in> set (failed_messages (snd (drain (drain (drain (w, b)))))) \<Longrightarrow> False"
      by fastforce
    show ?thesis
    proof (cases "failed_messages (snd (drain (drain (drain (w, b)))))")
      case Nil
      then show ?thesis .
    next
      case (Cons m ms)
      with none [of m] show ?thesis by simp
    qed
  qed
  from 1 2 3 show ?thesis by blast
qed

theorem retry_failed_messages_bounded_witness:
  "0 \<le> retry_count (example_record 0) \<and> 0 \<le> retry_count (example_record 2)
   \<and> retry_failed_messages (example_world (\<lambda>t. HttpRequestError))
        (example_bot [example_record 0, example_record 2])
     = (Inr (),
        (example_world (\<lambda>t. HttpRequestError))
          \<lparr>trace := [SendMessage (retry_text (example_record 0)),
                     SendMessage (retry_text (example_record 2)), SaveFailed],
           failed_file := Stored [example_record 1]\<rparr>,
        example_bot [example_record 1])
   \<and> failed_messages (snd (drain (drain (drain
        (example_world (\<lambda>t. HttpRequestError),
         example_bot [example_record 0, example_record 2]))))) = []"
  using retry_failed_messages_bounded
          [of "example_world (\<lambda>t. HttpRequestError)"
              "example_bot [example_record 0, example_record 2]"]
  by (simp add: retry_failed_messages_def retry_one_eq example_world_def example_bot_def example_config_def
        example_record_def configured_def delivered_def telegram_credentials_def clock_def
        emit_def bump_def
        save_failed_messages_def write_json_def)

subsection \<open>Persistence of the failure queue after a drain\<close>

text \<open>
  C5, as stated, fails: a drain whose only record fails for the first time increments the
  counter in memory and writes nothing, so the file still holds the counter 0.
\<close>

theorem drain_without_removal_not_flushed:
  "retry_failed_messages
     ((example_world (\<lambda>t. HttpRequestError))\<lparr>failed_file := Stored [example_record 0]\<rparr>)
     (example_bot [example_record 0])
   = (Inr (),
      (example_world (\<lambda>t. HttpRequestError))
        \<lparr>trace := [SendMessage (retry_text (example_record 0))],
         failed_file := Stored [example_record 0]\<rparr>,
      example_bot [example_record 1])
   \<and> Stored [example_record 0] \<noteq> Stored [example_record 1]"
  by (simp add: retry_failed_messages_def retry_one_eq example_world_def example_bot_def example_config_def
        example_record_def configured_def delivered_def telegram_credentials_def clock_def
        emit_def bump_def
        save_failed_messages_def write_json_def)

text \<open>
  C5, amended. When a drain removes at least one record and the write of the file succeeds,
  the file holds the queue as the drain leaves it; when a drain removes no record, the file is
  left as it was and the only external calls of the drain are its retries.
\<close>

theorem retry_failed_messages_flush:
  assumes "retry_failed_messages w b = (r, w', b')"
  shows "(length (failed_messages b') < length (failed_messages b)
          \<and> fs_write w (clock w + (if configured (config b) then length (failed_messages b) else 0))
              = WriteOk
          \<longrightarrow> failed_file w' = Stored (failed_messages b'))
       \<and> (length (failed_messages b') = length (failed_messages b)
          \<longrightarrow> failed_file w' = failed_file w
              \<and> trace w' = trace w @ (if configured (config b)
                    then map (\<lambda>m. SendMessage (retry_text m)) (failed_messages b) else []))"
proof (cases "failed_messages b = []")
  case True
  with assms show ?thesis
    by (auto simp add: retry_failed_messages_def)
next
  case False
  obtain w1 ms rems where loop: "retry_loop w b 0 (failed_messages b) = (w1, ms, rems)"
    by (cases "retry_loop w b 0 (failed_messages b)") auto
  have pop: "pop_all (rev rems) ms
             = (Inr (), survivors (config b) (http w) (clock w) (failed_messages b))"
    using retry_loop_pop [OF loop, of "[]"] by simp
  have w1: "w1 = w\<lparr>trace := trace w @ (if configured (config b)
                     then map (\<lambda>m. SendMessage (retry_text m)) (failed_messages b) else [])\<rparr>"
    using retry_loop_world [of w b 0 "failed_messages b"] loop by simp
  have len: "length rems + length (survivors (config b) (http w) (clock w) (failed_messages b))
             = length (failed_messages b)"
    by (rule retry_loop_removed [OF loop])
  have b': "failed_messages b' = survivors (config b) (http w) (clock w) (failed_messages b)"
    using assms False loop pop
    by (auto simp add: retry_failed_messages_def Let_def split: if_splits)
  show ?thesis
  proof (cases "rems = []")
    case True
    with assms False loop pop w1 len b' show ?thesis
      by (auto simp add: retry_failed_messages_def Let_def)
  next
    case nonempty: False
    then have "length (failed_messages b') < length (failed_messages b)"
      using len b' by (cases rems) auto
    moreover have "failed_file w' = Stored (failed_messages b')"
      if "fs_write w (clock w + (if configured (config b) then length (failed_messages b) else 0))
          = WriteOk"
      using that assms False loop pop w1 nonempty
      by (auto simp add: retry_failed_messages_def Let_def save_failed_messages_def
            write_json_def clock_def emit_def split: if_splits)
    ultimately show ?thesis by simp
  qed
qed

theorem retry_failed_messages_flush_witness:
  "failed_file (fst (snd (retry_failed_messages (example_world (\<lambda>t. HttpRequestError))
        (example_bot [example_record 0, example_record 2]))))
   = Stored [example_record 1]
   \<and> failed_messages (snd (snd (retry_failed_messages (example_world (\<lambda>t. HttpRequestError))
        (example_bot [example_record 0, example_record 2])))) = [example_record 1]"
  using retry_failed_messages_flush
          [of "example_world (\<lambda>t. HttpRequestError)"
              "example_bot [example_record 0, example_record 2]"
              "fst (retry_failed_messages (example_world (\<lambda>t. HttpRequestError))
                     (example_bot [example_record 0, example_record 2]))"
              "fst (snd (retry_failed_messages (example_world (\<lambda>t. HttpRequestError))
                     (example_bot [example_record 0, example_record 2])))"
              "snd (snd (retry_failed_messages (example_world (\<lambda>t. HttpRequestError))
                     (example_bot [example_record 0, example_record 2])))"]
  by (simp add: retry_failed_messages_def retry_one_eq example_world_def example_bot_def example_config_def
        example_record_def configured_def delivered_def telegram_credentials_def clock_def
        emit_def bump_def
        save_failed_messages_def write_json_def)


subsection \<open>Delivery\<close>

lemma add_failed_message_eq:
  "queue_is_list b \<Longrightarrow>
   add_failed_message w b message media_url post_url
   = (Inr (), enqueued w b message media_url post_url)"
  by (simp add: add_failed_message_def save_failed_messages_def failure_record_def enqueued_def
           Let_def split: prod.splits sum.splits)

lemma add_failed_message_non_list:
  "\<not> queue_is_list b \<Longrightarrow>
   add_failed_message w b message media_url post_url = (Inl AttributeError, w, b)"
  by (simp add: add_failed_message_def)

lemma send_unconfigured:
  "\<not> configured (config b) \<Longrightarrow>
   send_telegram_message w b message media_url video_file_path post_url is_nsfw
   = (Inl KeyError, w, b)"
  using telegram_credentials_cases [of "config b"]
  by (auto simp add: send_telegram_message_def)

lemma send_configured:
  "configured (config b) \<Longrightarrow>
   send_telegram_message w b message media_url video_file_path post_url is_nsfw
   = (case send_try w b message media_url video_file_path post_url is_nsfw of
        (Inr ok, w1, b1) \<Rightarrow> (Inr ok, w1, b1)
      | (Inl e, w1, b1) \<Rightarrow>
          (if truthy media_url \<or> truthy video_file_path then
             (case add_failed_message w1 b1 message (py_or media_url video_file_path) post_url of
                (Inl e', w2, b2) \<Rightarrow> (Inl e', w2, b2)
              | (Inr u, w2, b2) \<Rightarrow> (Inr False, w2, b2))
           else (Inr False, w1, b1)))"
  using telegram_credentials_cases [of "config b"]
  by (auto simp add: send_telegram_message_def)

lemma send_video_eq:
  assumes "configured (config b)" "queue_is_list b"
    and "truthy video_file_path" "fs_exists w (clock w) (the video_file_path)"
  shows "send_telegram_message w b message media_url video_file_path post_url is_nsfw =
     (if \<not> fs_open w (clock w) (the video_file_path) then
        (Inr False,
         enqueued w b message (py_or media_url video_file_path) post_url)
      else if http w (clock w) = Http2xx then
        (Inr True, emit w (SendVideo (the video_file_path) message), b)
      else if http w (clock w) = HttpRequestError then
        (Inr (http w (clock w + 2) = Http2xx),
         emit (fst (enqueued (emit w (SendVideo (the video_file_path) message)) b
                      message video_file_path post_url))
              (SendMessage (message @ video_suffix @ origin_link post_url)),
         snd (enqueued (emit w (SendVideo (the video_file_path) message)) b
                      message video_file_path post_url))
      else
        (Inr False,
         enqueued (emit w (SendVideo (the video_file_path) message)) b message
           (py_or media_url video_file_path) post_url))"
  using assms
  by (cases "http w (clock w)")
     (simp_all add: send_configured send_try_def http_request_def send_text_message_eq
        add_failed_message_eq enqueued_def clock_emit http_emit emit_def clock_def Let_def)

lemma send_photo_eq:
  assumes "configured (config b)" "queue_is_list b"
    and "\<not> (truthy video_file_path \<and> fs_exists w (clock w) (the video_file_path))"
    and "truthy media_url" "contains_any (lower (the media_url)) photo_extensions"
  shows "send_telegram_message w b message media_url video_file_path post_url is_nsfw =
     (if http w (clock w) = Http2xx then
        (Inr True, emit w (SendPhoto (the media_url) message), b)
      else if http w (clock w) = HttpRequestError then
        (Inr (http w (clock w + 2) = Http2xx),
         emit (fst (enqueued (emit w (SendPhoto (the media_url) message)) b
                      message media_url post_url))
              (SendMessage (message @ (if is_nsfw then nsfw_suffix else image_suffix (the media_url))
                            @ origin_link post_url)),
         snd (enqueued (emit w (SendPhoto (the media_url) message)) b
                      message media_url post_url))
      else
        (Inr False,
         enqueued (emit w (SendPhoto (the media_url) message)) b message
           (py_or media_url video_file_path) post_url))"
  using assms
  by (cases "http w (clock w)"; cases "truthy video_file_path")
     (simp_all add: send_configured send_try_def http_request_def send_text_message_eq
        add_failed_message_eq enqueued_def clock_emit http_emit emit_def clock_def Let_def)

lemma send_text_eq:
  assumes "\<not> (truthy video_file_path \<and> fs_exists w (clock w) (the video_file_path))"
    and "\<not> (truthy media_url \<and> contains_any (lower (the media_url)) photo_extensions)"
  shows "send_telegram_message w b message media_url video_file_path post_url is_nsfw =
     (let (r, w') = send_text_message w b message in (r, w', b))"
proof (cases "configured (config b)")
  case True
  with assms show ?thesis
    by (cases "truthy video_file_path"; cases "truthy media_url")
       (simp_all add: send_configured send_try_def send_text_message_eq)
next
  case False
  then show ?thesis
    by (simp add: send_unconfigured send_text_message_eq)
qed

text \<open>
  C1, as stated, fails: the two subscripts of the configuration stand before the \<^verbatim>\<open>try\<close>,
  so with a configuration that has no \<^verbatim>\<open>telegram\<close> section the call raises \<^verbatim>\<open>KeyError\<close>
  to its caller.
\<close>

theorem send_telegram_message_raises_unconfigured:
  "send_telegram_message (example_world (\<lambda>t. Http2xx)) unconfigured_bot ''hi''
     (Some ''https://i.redd.it/a.jpg'') None (Some ''https://reddit.com/r/pics/1'') False
   = (Inl KeyError, example_world (\<lambda>t. Http2xx), unconfigured_bot)"
  by (simp add: send_telegram_message_def unconfigured_bot_def example_config_def
        telegram_credentials_def)

text \<open>
  The call has a second way to raise. \<^verbatim>\<open>add_failed_message\<close> runs inside the handlers, under
  no \<^verbatim>\<open>try\<close>: with the credentials present and a failure queue that is not a list, a request
  error of the photo request ends in \<^verbatim>\<open>AttributeError\<close>, raised by \<^verbatim>\<open>append\<close> in the inner
  handler and again in the outer one, from where it reaches the caller.
\<close>

lemma send_telegram_message_raises_non_list_queue:
  "send_telegram_message (example_world (\<lambda>t. HttpRequestError)) non_list_queue_bot ''hi''
     (Some ''https://i.redd.it/a.jpg'') None (Some ''https://reddit.com/r/pics/1'') False
   = (Inl AttributeError,
      (example_world (\<lambda>t. HttpRequestError))
        \<lparr>trace := [SendPhoto ''https://i.redd.it/a.jpg'' ''hi'']\<rparr>,
      non_list_queue_bot)"
  by (simp add: send_telegram_message_def send_try_def add_failed_message_def http_request_def
        non_list_queue_bot_def example_bot_def example_config_def example_world_def
        telegram_credentials_def truthy_def py_or_def clock_def emit_def
        contains_any_def contains_def lower_def lower_char_def photo_extensions_def)

text \<open>
  C1, amended. With a configuration that has the credentials of the messaging endpoint and
  a failure queue that is a list, every call returns a boolean: no exception reaches the
  caller, whatever the arguments and whatever the network and the file system answer. The
  result is true only when the last request of the call went to the messaging endpoint and was
  answered with 2xx. A request error of the video or photo request enqueues the failure record
  and turns into the text fallback, whose outcome is the result; without a video file and
  without a photo URL the call is the plain text request.
\<close>

theorem send_telegram_message_total:
  assumes "configured (config b)" and "queue_is_list b"
  shows "\<exists>ok w' b'.
     send_telegram_message w b message media_url video_file_path post_url is_nsfw = (Inr ok, w', b')
     \<and> (ok \<longrightarrow> confirmed w w')
     \<and> (truthy video_file_path \<and> fs_exists w (clock w) (the video_file_path)
        \<and> fs_open w (clock w) (the video_file_path) \<and> http w (clock w) = HttpRequestError \<longrightarrow>
          failed_messages b' = failed_messages b
             @ [failure_record w (clock w + 1) message video_file_path post_url]
          \<and> trace w' = trace w @ [SendVideo (the video_file_path) message, SaveFailed,
                                  SendMessage (message @ video_suffix @ origin_link post_url)]
          \<and> ok = (http w (clock w + 2) = Http2xx))
     \<and> (\<not> (truthy video_file_path \<and> fs_exists w (clock w) (the video_file_path))
        \<and> truthy media_url \<and> contains_any (lower (the media_url)) photo_extensions
        \<and> http w (clock w) = HttpRequestError \<longrightarrow>
          failed_messages b' = failed_messages b
             @ [failure_record w (clock w + 1) message media_url post_url]
          \<and> trace w' = trace w @ [SendPhoto (the media_url) message, SaveFailed,
               SendMessage (message @ (if is_nsfw then nsfw_suffix else image_suffix (the media_url))
                            @ origin_link post_url)]
          \<and> ok = (http w (clock w + 2) = Http2xx))
     \<and> (\<not> (truthy video_file_path \<and> fs_exists w (clock w) (the video_file_path))
        \<and> \<not> (truthy media_url \<and> contains_any (lower (the media_url)) photo_extensions) \<longrightarrow>
          b' = b \<and> trace w' = trace w @ [SendMessage message]
          \<and> ok = (http w (clock w) = Http2xx))"
proof (cases "truthy video_file_path \<and> fs_exists w (clock w) (the video_file_path)")
  case video: True
  show ?thesis
    using video assms
    by (cases "http w (clock w)"; cases "fs_open w (clock w) (the video_file_path)")
       (auto simp add: send_video_eq enqueued_def confirmed_def clock_emit http_emit
          failure_record_def emit_def clock_def)
next
  case novideo: False
  show ?thesis
  proof (cases "truthy media_url \<and> contains_any (lower (the media_url)) photo_extensions")
    case photo: True
    have eq: "send_telegram_message w b message media_url video_file_path post_url is_nsfw =
     (if http w (clock w) = Http2xx then
        (Inr True, emit w (SendPhoto (the media_url) message), b)
      else if http w (clock w) = HttpRequestError then
        (Inr (http w (clock w + 2) = Http2xx),
         emit (fst (enqueued (emit w (SendPhoto (the media_url) message)) b
                      message media_url post_url))
              (SendMessage (message @ (if is_nsfw then nsfw_suffix else image_suffix (the media_url))
                            @ origin_link post_url)),
         snd (enqueued (emit w (SendPhoto (the media_url) message)) b
                      message media_url post_url))
      else
        (Inr False,
         enqueued (emit w (SendPhoto (the media_url) message)) b message
           (py_or media_url video_file_path) post_url))"
      using novideo photo assms by (intro send_photo_eq) simp_all
    show ?thesis
      unfolding eq using novideo photo
      by (cases "http w (clock w)")
         (auto simp add: enqueued_def confirmed_def clock_emit http_emit
            failure_record_def emit_def clock_def)
  next
    case nophoto: False
    have eq: "send_telegram_message w b message media_url video_file_path post_url is_nsfw =
       (Inr (http w (clock w) = Http2xx), emit w (SendMessage message), b)"
      using send_text_eq [of video_file_path w media_url b message post_url is_nsfw]
        novideo nophoto assms
      by (simp add: send_text_message_eq)
    show ?thesis
      unfolding eq using novideo nophoto
      by (auto simp add: confirmed_def emit_def clock_def)
  qed
qed

theorem send_telegram_message_total_witness:
  "configured (config (example_bot []))
   \<and> queue_is_list (example_bot [])
   \<and> truthy (Some ''/tmp/v.mp4'')
   \<and> fs_exists (example_world (\<lambda>t. if t = 0 then HttpRequestError else Http2xx)) 0 ''/tmp/v.mp4''
   \<and> http (example_world (\<lambda>t. if t = 0 then HttpRequestError else Http2xx)) 0 = HttpRequestError
   \<and> send_telegram_message (example_world (\<lambda>t. if t = 0 then HttpRequestError else Http2xx))
        (example_bot []) ''hi'' None (Some ''/tmp/v.mp4'') (Some ''https://reddit.com/r/pics/1'') False
     = (Inr True,
        (example_world (\<lambda>t. if t = 0 then HttpRequestError else Http2xx))
          \<lparr>trace := [SendVideo ''/tmp/v.mp4'' ''hi'', SaveFailed,
                     SendMessage (''hi'' @ video_suffix
                                  @ origin_link (Some ''https://reddit.com/r/pics/1''))],
           failed_file :=
             Stored [failure_record (example_world (\<lambda>t. if t = 0 then HttpRequestError else Http2xx))
                       1 ''hi'' (Some ''/tmp/v.mp4'') (Some ''https://reddit.com/r/pics/1'')]\<rparr>,
        example_bot [failure_record (example_world (\<lambda>t. if t = 0 then HttpRequestError else Http2xx))
                       1 ''hi'' (Some ''/tmp/v.mp4'') (Some ''https://reddit.com/r/pics/1'')])"
proof -
  have c: "configured (config (example_bot []))"
    by (simp add: example_world_def example_bot_def example_config_def
        configured_def telegram_credentials_def clock_def emit_def)
  have q: "queue_is_list (example_bot [])"
    by (simp add: example_bot_def)
  show ?thesis
    using send_telegram_message_total
          [OF c q, of "example_world (\<lambda>t. if t = 0 then HttpRequestError else Http2xx)"
              "''hi''" None "Some ''/tmp/v.mp4''" "Some ''https://reddit.com/r/pics/1''" False]
    by (simp add: send_video_eq enqueued_def example_world_def example_bot_def example_config_def
        configured_def telegram_credentials_def clock_def emit_def truthy_def
        failure_record_def write_json_def py_or_def)
qed

subsection \<open>Loading the persisted state\<close>

text \<open>
  C6. A failure queue file that is missing, unreadable or malformed loads as the empty list,
  and a missing processed-set file loads as the empty set; a processed-set file that is
  malformed or unreadable makes \<^verbatim>\<open>load_processed_posts\<close> raise instead.
\<close>

theorem load_processed_posts_malformed:
  "load_processed_posts Malformed = Inl JSONDecodeError
   \<and> load_processed_posts Unreadable = Inl OSError
   \<and> load_processed_posts NoFile = Inr {}
   \<and> load_failed_messages Malformed = []
   \<and> load_failed_messages Unreadable = []
   \<and> load_failed_messages NoFile = []"
  by (simp add: load_processed_posts_def load_failed_messages_def read_json_def)

subsection \<open>The subject name\<close>

text \<open>
  C4. The two titles of the specification give the stated results. The general rule fails
  on the code: the class of deleted characters holds the blank, so the words of the segment
  are joined before they are split, and the test looks at the first character of the joined
  segment. In the title \<^verbatim>\<open>the Queen | x\<close> the token \<^verbatim>\<open>Queen\<close> starts with an uppercase letter and
  has more than one character, yet no name is extracted; in \<^verbatim>\<open>A b | x\<close> no token qualifies, yet
  the segment is accepted.
\<close>

theorem extract_model_name_joins_words:
  "extract_model_name ''the Queen | x'' = None
   \<and> extract_model_name_as_specified ''the Queen | x'' = Some ''the Queen''
   \<and> extract_model_name ''A b | x'' = Some ''A b''
   \<and> extract_model_name_as_specified ''A b | x'' = None
   \<and> extract_model_name ''Ana Maria | Special post'' = Some ''Ana Maria''
   \<and> extract_model_name ''123 | no name'' = None"
  by (simp add: extract_model_name_def extract_model_name_as_specified_def strip_def isspace_def
        special_chars_def split_def isupper_def)

subsection \<open>The two sets of image extensions\<close>

lemma contains_nonempty: "contains s sub \<Longrightarrow> sub \<noteq> [] \<Longrightarrow> s \<noteq> []"
  by (cases s) auto

text \<open>
  C10. Image resolution accepts a direct URL that contains \<^verbatim>\<open>.webp\<close> (in any case) and
  returns it, while the photo branch of the delivery does not list \<^verbatim>\<open>.webp\<close>: for a media URL
  that contains \<^verbatim>\<open>.webp\<close> and none of the four photo extensions, and no video file, the
  delivery is \<^verbatim>\<open>send_text_message\<close> on the message, that is the plain text request and nothing
  else: no photo request is made and the failure queue stays as it was.
\<close>

theorem webp_resolved_but_sent_as_text:
  "(\<not> is_self post
    \<and> \<not> truthy (if media_metadata post \<noteq> []
                 then scan_images (media_metadata post) (sort (map fst (media_metadata post)))
                 else None)
    \<and> contains (lower (url post)) ''.webp''
    \<longrightarrow> download_reddit_image post = Some (replace (url post) ''&amp;'' ''&''))
   \<and> (contains (lower u) ''.webp'' \<and> \<not> contains_any (lower u) photo_extensions
      \<and> \<not> (truthy video_file_path \<and> fs_exists w (clock w) (the video_file_path))
      \<longrightarrow> send_telegram_message w b message (Some u) video_file_path post_url is_nsfw
          = (let (r, w') = send_text_message w b message in (r, w', b))
        \<and> (configured (config b) \<longrightarrow>
             send_telegram_message w b message (Some u) video_file_path post_url is_nsfw
             = (Inr (http w (clock w) = Http2xx), emit w (SendMessage message), b)))
   \<and> ''.webp'' \<in> set image_extensions \<and> ''.webp'' \<notin> set photo_extensions"
proof (intro conjI impI)
  assume a: "\<not> is_self post
    \<and> \<not> truthy (if media_metadata post \<noteq> []
                 then scan_images (media_metadata post) (sort (map fst (media_metadata post)))
                 else None)
    \<and> contains (lower (url post)) ''.webp''"
  then have "lower (url post) \<noteq> []"
    using contains_nonempty [of "lower (url post)" "''.webp''"] by simp
  then have ne: "url post \<noteq> []"
    by (simp add: lower_def)
  have any: "contains_any (lower (url post)) image_extensions"
    using a by (simp add: contains_any_def image_extensions_def)
  show "download_reddit_image post = Some (replace (url post) ''&amp;'' ''&'')"
    using a ne any by (simp add: download_reddit_image_def Let_def truthy_def)
next
  assume a: "contains (lower u) ''.webp'' \<and> \<not> contains_any (lower u) photo_extensions
      \<and> \<not> (truthy video_file_path \<and> fs_exists w (clock w) (the video_file_path))"
  show plain: "send_telegram_message w b message (Some u) video_file_path post_url is_nsfw
          = (let (r, w') = send_text_message w b message in (r, w', b))"
    using a by (intro send_text_eq) simp_all
  assume "configured (config b)"
  then show "send_telegram_message w b message (Some u) video_file_path post_url is_nsfw
             = (Inr (http w (clock w) = Http2xx), emit w (SendMessage message), b)"
    unfolding plain by (simp add: send_text_message_eq)
qed (simp_all add: image_extensions_def photo_extensions_def)

theorem webp_resolved_but_sent_as_text_witness:
  "\<not> is_self (link_post ''https://i.redd.it/a.WEBP?x=1&amp;y=2'')
   \<and> contains (lower ''https://i.redd.it/a.WEBP?x=1&amp;y=2'') ''.webp''
   \<and> download_reddit_image (link_post ''https://i.redd.it/a.WEBP?x=1&amp;y=2'')
       = Some ''https://i.redd.it/a.WEBP?x=1&y=2''
   \<and> \<not> contains_any (lower ''https://i.redd.it/a.WEBP?x=1&y=2'') photo_extensions
   \<and> configured (config (example_bot []))
   \<and> send_telegram_message (example_world (\<lambda>t. Http2xx)) (example_bot []) ''hi''
        (Some ''https://i.redd.it/a.WEBP?x=1&y=2'') None (Some ''https://reddit.com/r/pics/1'') False
       = (Inr True, (example_world (\<lambda>t. Http2xx))\<lparr>trace := [SendMessage ''hi'']\<rparr>, example_bot [])"
  using webp_resolved_but_sent_as_text
          [of "link_post ''https://i.redd.it/a.WEBP?x=1&amp;y=2''"
              "''https://i.redd.it/a.WEBP?x=1&y=2''" None "example_world (\<lambda>t. Http2xx)"
              "example_bot []" "''hi''" "Some ''https://reddit.com/r/pics/1''" False]
  by (simp add: link_post_def lower_def lower_char_def contains_any_def photo_extensions_def
        truthy_def replace_def send_text_message_eq example_world_def example_bot_def example_config_def
        configured_def telegram_credentials_def clock_def emit_def)

subsection \<open>The skip of text-only posts\<close>

text \<open>
  C9. For a self-text post without video flag, media, media metadata and preview, the
  test \<^verbatim>\<open>has_media_content\<close> is false; when \<^verbatim>\<open>send_text_only_posts\<close> is false or absent,
  the loop body puts the post's identifier into the processed set and leaves the world as it
  was: no request of any kind is made for the post.
\<close>

theorem text_only_post_skipped:
  assumes "is_self post" "\<not> is_video post" "media post = None" "media_metadata post = []"
    "preview post = None"
    and "send_text_only_posts (config b) = Some False \<or> send_text_only_posts (config b) = None"
  shows "\<not> has_media_content post
       \<and> process_post w b post
          = (Inr (), w, b\<lparr>processed_posts := insert (post_id post) (processed_posts b)\<rparr>)
       \<and> post_id post \<in> processed_posts (snd (snd (process_post w b post)))
       \<and> trace (fst (snd (process_post w b post))) = trace w"
proof -
  have nomedia: "\<not> has_media_content post"
    using assms by (simp add: has_media_content_def)
  have "process_post w b post
          = (Inr (), w, b\<lparr>processed_posts := insert (post_id post) (processed_posts b)\<rparr>)"
  proof (cases "post_id post \<in> processed_posts b")
    case True
    then have "insert (post_id post) (processed_posts b) = processed_posts b"
      by auto
    with True show ?thesis
      by (simp add: process_post_def)
  next
    case False
    with nomedia assms(6) show ?thesis
      by (auto simp add: process_post_def)
  qed
  with nomedia show ?thesis by simp
qed

theorem text_only_post_skipped_witness:
  "is_self text_post \<and> \<not> is_video text_post \<and> media text_post = None
   \<and> media_metadata text_post = [] \<and> preview text_post = None
   \<and> send_text_only_posts (config (example_bot [])) = None
   \<and> process_post (example_world (\<lambda>t. Http2xx)) (example_bot []) text_post
     = (Inr (), example_world (\<lambda>t. Http2xx), (example_bot [])\<lparr>processed_posts := {''p2''}\<rparr>)"
  using text_only_post_skipped [of text_post "example_bot []" "example_world (\<lambda>t. Http2xx)"]
  by (simp add: text_post_def example_bot_def example_config_def)

subsection \<open>The scans of the media metadata\<close>

lemma scan_videos_first:
  assumes "sorted ks" "k \<in> set ks" "map_of md k = Some mi" "mi_e mi = Some ''RedditVideo''"
    and "mi_hlsUrl mi \<noteq> None \<or> mi_dashUrl mi \<noteq> None"
    and "\<forall>k' mi'. k' \<in> set ks \<and> k' < k \<and> map_of md k' = Some mi' \<and> mi_e mi' = Some ''RedditVideo''
           \<longrightarrow> mi_hlsUrl mi' = None \<and> mi_dashUrl mi' = None"
  shows "scan_videos md ks = (if mi_hlsUrl mi \<noteq> None then mi_hlsUrl mi else mi_dashUrl mi)"
  using assms
proof (induction ks)
  case Nil
  then show ?case by simp
next
  case (Cons x xs)
  show ?case
  proof (cases "x = k")
    case True
    with Cons.prems show ?thesis by auto
  next
    case False
    with Cons.prems have lt: "x < k" and k: "k \<in> set xs" and s: "sorted xs"
      by auto
    have earlier: "\<forall>k' mi'. k' \<in> set xs \<and> k' < k \<and> map_of md k' = Some mi'
           \<and> mi_e mi' = Some ''RedditVideo'' \<longrightarrow> mi_hlsUrl mi' = None \<and> mi_dashUrl mi' = None"
      using Cons.prems(6) by fastforce
    have rest: "scan_videos md xs = (if mi_hlsUrl mi \<noteq> None then mi_hlsUrl mi else mi_dashUrl mi)"
      by (rule Cons.IH [OF s k Cons.prems(3,4,5) earlier])
    have skip: "scan_videos md (x # xs) = scan_videos md xs"
    proof (cases "map_of md x")
      case None
      then show ?thesis by simp
    next
      case (Some mi')
      show ?thesis
      proof (cases "mi_e mi' = Some ''RedditVideo''")
        case True
        have "mi_hlsUrl mi' = None \<and> mi_dashUrl mi' = None"
          using Cons.prems(6) [rule_format, of x mi'] lt Some True by simp
        with Some True show ?thesis by simp
      next
        case False
        with Some show ?thesis by simp
      qed
    qed
    with rest show ?thesis by simp
  qed
qed


lemma scan_images_first:
  assumes "sorted ks" "k \<in> set ks" "map_of md k = Some mi" "mi_e mi = Some ''Image''"
    and "image_from_info mi = Some u"
    and "\<forall>k' mi'. k' \<in> set ks \<and> k' < k \<and> map_of md k' = Some mi' \<and> mi_e mi' = Some ''Image''
           \<longrightarrow> image_from_info mi' = None"
  shows "scan_images md ks = Some u"
  using assms
proof (induction ks)
  case Nil
  then show ?case by simp
next
  case (Cons x xs)
  show ?case
  proof (cases "x = k")
    case True
    with Cons.prems show ?thesis by auto
  next
    case False
    with Cons.prems have lt: "x < k" and k: "k \<in> set xs" and s: "sorted xs"
      by auto
    have earlier: "\<forall>k' mi'. k' \<in> set xs \<and> k' < k \<and> map_of md k' = Some mi'
           \<and> mi_e mi' = Some ''Image'' \<longrightarrow> image_from_info mi' = None"
      using Cons.prems(6) by fastforce
    have rest: "scan_images md xs = Some u"
      by (rule Cons.IH [OF s k Cons.prems(3,4,5) earlier])
    have skip: "scan_images md (x # xs) = scan_images md xs"
    proof (cases "map_of md x")
      case None
      then show ?thesis by simp
    next
      case (Some mi')
      show ?thesis
      proof (cases "mi_e mi' = Some ''Image''")
        case True
        have "image_from_info mi' = None"
          using Cons.prems(6) [rule_format, of x mi'] lt Some True by simp
        with Some True show ?thesis by simp
      next
        case False
        with Some show ?thesis by simp
      qed
    qed
    with rest show ?thesis by simp
  qed
qed

lemma max_from_greatest:
  "max_from f best xs \<in> set (best # xs) \<and> (\<forall>x \<in> set (best # xs). f x \<le> f (max_from f best xs))"
proof (induction xs arbitrary: best)
  case Nil
  show ?case by simp
next
  case (Cons x xs)
  show ?case
    using Cons.IH [of "if f best < f x then x else best"]
    by (auto split: if_splits intro: order_trans less_imp_le)
qed

lemma map_of_key: "map_of md k = Some v \<Longrightarrow> k \<in> set (sort (map fst md))"
  by (auto dest: map_of_SomeD intro: rev_image_eqI)

subsection \<open>Video resolution from the media metadata\<close>

text \<open>
  C3, as stated, fails: when the entry that carries both URLs is preceded (in the order of
  the media-ids) by an entry tagged \<^verbatim>\<open>RedditVideo\<close> that carries a DASH URL only, the loop
  stops at the earlier entry and the DASH URL of that entry is selected.
\<close>

theorem first_entry_need_not_have_hls:
  "video_from_media two_videos_post = Inr None
   \<and> map_of (media_metadata two_videos_post) ''b''
       = Some (no_info\<lparr>mi_e := Some ''RedditVideo'',
                        mi_hlsUrl := Some ''https://v.redd.it/b/HLSPlaylist.m3u8'',
                        mi_dashUrl := Some ''https://v.redd.it/b/DASHPlaylist.mpd''\<rparr>)
   \<and> map_of (media_metadata two_videos_post) ''a''
       = Some (no_info\<lparr>mi_e := Some ''RedditVideo'',
                        mi_dashUrl := Some ''https://v.redd.it/a/DASHPlaylist.mpd''\<rparr>)
   \<and> sort (map fst (media_metadata two_videos_post)) = [''a'', ''b'']
   \<and> select_video_url two_videos_post = Inr (Some ''https://v.redd.it/a/DASHPlaylist.mpd'')"
  by (simp add: two_videos_post_def link_post_def no_info_def select_video_url_def
        video_from_media_def video_from_metadata_def video_from_preview_def truthy_def)

text \<open>
  C3, amended. When no earlier method found a URL, the entry \<open>k\<close> is tagged
  \<^verbatim>\<open>RedditVideo\<close> and carries a non-empty HLS URL and a DASH URL, and no entry tagged
  \<^verbatim>\<open>RedditVideo\<close> with a smaller media-id carries an HLS or a DASH URL, then the scan in
  ascending order of the media-ids stops at \<open>k\<close> and video resolution selects the HLS URL of
  \<open>k\<close>.
\<close>

theorem hls_preferred:
  assumes "video_from_media post = Inr v" "\<not> truthy v"
    and "map_of (media_metadata post) k = Some mi" "mi_e mi = Some ''RedditVideo''"
    and "mi_hlsUrl mi = Some h" "mi_dashUrl mi = Some d" "h \<noteq> []"
    and "\<forall>k' mi'. k' < k \<and> map_of (media_metadata post) k' = Some mi'
           \<and> mi_e mi' = Some ''RedditVideo'' \<longrightarrow> mi_hlsUrl mi' = None \<and> mi_dashUrl mi' = None"
  shows "scan_videos (media_metadata post) (sort (map fst (media_metadata post))) = Some h
       \<and> select_video_url post = Inr (Some h)"
proof -
  have ne: "media_metadata post \<noteq> []"
    using assms(3) by auto
  have earlier: "\<forall>k' mi'. k' \<in> set (sort (map fst (media_metadata post))) \<and> k' < k
           \<and> map_of (media_metadata post) k' = Some mi' \<and> mi_e mi' = Some ''RedditVideo''
           \<longrightarrow> mi_hlsUrl mi' = None \<and> mi_dashUrl mi' = None"
    using assms(8) by blast
  have "scan_videos (media_metadata post) (sort (map fst (media_metadata post)))
        = (if mi_hlsUrl mi \<noteq> None then mi_hlsUrl mi else mi_dashUrl mi)"
    by (rule scan_videos_first [OF _ map_of_key [OF assms(3)] assms(3,4) _ earlier])
       (simp_all add: assms(5))
  then have scan: "scan_videos (media_metadata post) (sort (map fst (media_metadata post))) = Some h"
    using assms(5) by simp
  then show ?thesis
    using assms(1,2,7) ne
    by (simp add: select_video_url_def video_from_metadata_def video_from_preview_def truthy_def)
qed

theorem hls_preferred_witness:
  "video_from_media one_video_post = Inr None
   \<and> map_of (media_metadata one_video_post) ''b''
       = Some (no_info\<lparr>mi_e := Some ''RedditVideo'',
                        mi_hlsUrl := Some ''https://v.redd.it/b/HLSPlaylist.m3u8?a=1'',
                        mi_dashUrl := Some ''https://v.redd.it/b/DASHPlaylist.mpd?a=1''\<rparr>)
   \<and> select_video_url one_video_post = Inr (Some ''https://v.redd.it/b/HLSPlaylist.m3u8?a=1'')"
proof -
  let ?b = "no_info\<lparr>mi_e := Some ''RedditVideo'',
                     mi_hlsUrl := Some ''https://v.redd.it/b/HLSPlaylist.m3u8?a=1'',
                     mi_dashUrl := Some ''https://v.redd.it/b/DASHPlaylist.mpd?a=1''\<rparr>"
  have 1: "video_from_media one_video_post = Inr None"
    by (simp add: one_video_post_def two_videos_post_def link_post_def video_from_media_def)
  have 2: "map_of (media_metadata one_video_post) ''b'' = Some ?b"
    by (simp add: one_video_post_def two_videos_post_def link_post_def)
  have 3: "\<forall>k' mi'. k' < ''b'' \<and> map_of (media_metadata one_video_post) k' = Some mi'
           \<and> mi_e mi' = Some ''RedditVideo'' \<longrightarrow> mi_hlsUrl mi' = None \<and> mi_dashUrl mi' = None"
    by (auto simp add: one_video_post_def two_videos_post_def link_post_def no_info_def
          split: if_splits)
  have "select_video_url one_video_post = Inr (Some ''https://v.redd.it/b/HLSPlaylist.m3u8?a=1'')"
    using hls_preferred [OF 1 _ 2 _ _ _ _ 3]
    by (simp add: truthy_def no_info_def)
  with 1 2 show ?thesis by simp
qed

subsection \<open>Image resolution from the media metadata\<close>

text \<open>
  C8, as stated, fails: an entry tagged \<^verbatim>\<open>Image\<close> from which the chain of the loop takes no
  URL does not end the loop, so the image comes from a later entry although the entry with
  the smallest media-id among those tagged \<^verbatim>\<open>Image\<close> is another one.
\<close>

theorem smallest_image_entry_skipped:
  "map_of (media_metadata two_images_post) ''a'' = Some (no_info\<lparr>mi_e := Some ''Image''\<rparr>)
   \<and> map_of (media_metadata two_images_post) ''b''
       = Some (no_info\<lparr>mi_e := Some ''Image'',
                        mi_s := Some \<lparr>var_x = Some 800, var_y = Some 600,
                                      var_u = Some ''https://preview.redd.it/b.jpg?s=1&amp;t=2''\<rparr>\<rparr>)
   \<and> ''a'' < ''b''
   \<and> select_video_url two_images_post = Inr None
   \<and> sort (map fst (media_metadata two_images_post)) = [''a'', ''b'']
   \<and> download_reddit_image two_images_post = Some ''https://preview.redd.it/b.jpg?s=1&t=2''"
  by (simp add: two_images_post_def link_post_def no_info_def download_reddit_image_def
        image_from_info_def image_from_original_def image_from_previews_def truthy_def
        replace_def select_video_url_def video_from_media_def video_from_metadata_def
        video_from_preview_def)

text \<open>
  C8, amended. Image resolution scans the entries tagged \<^verbatim>\<open>Image\<close> by ascending media-id
  and stops at the first one from which the chain takes a URL; the entries before it, from
  which the chain takes none, are skipped. So if \<open>k\<close> is an entry tagged \<^verbatim>\<open>Image\<close> that
  gives the URL \<open>u\<close>, and no entry tagged \<^verbatim>\<open>Image\<close> with a smaller media-id gives a URL, the
  scan ends with \<open>u\<close>. When \<open>u\<close> is not empty, the result is \<open>u\<close> with \<^verbatim>\<open>&amp;\<close> unescaped.
  When \<open>u\<close> is the empty string the scan has ended all the same: no later entry is looked at,
  and the result is the one of the same post without media metadata, decided by the direct
  URL and the preview. Within the entry, \<open>u\<close> is the best-quality URL when there is one; else
  the URL of the first original when there is one; else the URL of a preview variant whose
  width times height is the largest of the list.
\<close>

theorem image_entry_preference:
  assumes "map_of (media_metadata post) k = Some mi" "mi_e mi = Some ''Image''"
    and "image_from_info mi = Some u"
    and "\<forall>k' mi'. k' < k \<and> map_of (media_metadata post) k' = Some mi'
           \<and> mi_e mi' = Some ''Image'' \<longrightarrow> image_from_info mi' = None"
  shows "scan_images (media_metadata post) (sort (map fst (media_metadata post))) = Some u
       \<and> (u \<noteq> [] \<longrightarrow> download_reddit_image post = Some (replace u ''&amp;'' ''&''))
       \<and> (u = [] \<longrightarrow>
            download_reddit_image post = download_reddit_image (post\<lparr>media_metadata := []\<rparr>))
       \<and> (\<forall>v a. mi_s mi = Some v \<and> var_u v = Some a \<longrightarrow> u = a)
       \<and> ((mi_s mi = None \<or> (\<exists>v. mi_s mi = Some v \<and> var_u v = None)) \<longrightarrow>
            (\<forall>v vs a. mi_o mi = Some (v # vs) \<and> var_u v = Some a \<longrightarrow> u = a))
       \<and> ((mi_s mi = None \<or> (\<exists>v. mi_s mi = Some v \<and> var_u v = None))
          \<and> (mi_o mi = None \<or> mi_o mi = Some [] \<or> (\<exists>v vs. mi_o mi = Some (v # vs) \<and> var_u v = None))
          \<longrightarrow> (\<exists>vs v. mi_p mi = Some vs \<and> v \<in> set vs \<and> var_u v = Some u
                     \<and> (\<forall>v' \<in> set vs. area v' \<le> area v)))"
proof -
  have ne: "media_metadata post \<noteq> []"
    using assms(1) by auto
  have earlier: "\<forall>k' mi'. k' \<in> set (sort (map fst (media_metadata post))) \<and> k' < k
           \<and> map_of (media_metadata post) k' = Some mi' \<and> mi_e mi' = Some ''Image''
           \<longrightarrow> image_from_info mi' = None"
    using assms(4) by blast
  have scan: "scan_images (media_metadata post) (sort (map fst (media_metadata post))) = Some u"
    by (rule scan_images_first [OF _ map_of_key [OF assms(1)] assms(1,2,3) earlier]) simp
  have res: "download_reddit_image post = Some (replace u ''&amp;'' ''&'')" if "u \<noteq> []"
    using scan ne that by (simp add: download_reddit_image_def truthy_def Let_def)
  have empty: "download_reddit_image post = download_reddit_image (post\<lparr>media_metadata := []\<rparr>)"
    if "u = []"
    using scan ne that
    by (simp add: download_reddit_image_def image_from_preview_def truthy_def Let_def)
  have best: "\<forall>v a. mi_s mi = Some v \<and> var_u v = Some a \<longrightarrow> u = a"
    using assms(3) by (auto simp add: image_from_info_def)
  have orig: "\<forall>v vs a. mi_o mi = Some (v # vs) \<and> var_u v = Some a \<longrightarrow> u = a"
    if "mi_s mi = None \<or> (\<exists>v. mi_s mi = Some v \<and> var_u v = None)"
    using assms(3) that by (auto simp add: image_from_info_def image_from_original_def)
  have prev: "\<exists>vs v. mi_p mi = Some vs \<and> v \<in> set vs \<and> var_u v = Some u
                     \<and> (\<forall>v' \<in> set vs. area v' \<le> area v)"
    if a: "mi_s mi = None \<or> (\<exists>v. mi_s mi = Some v \<and> var_u v = None)"
      and b: "mi_o mi = None \<or> mi_o mi = Some [] \<or> (\<exists>v vs. mi_o mi = Some (v # vs) \<and> var_u v = None)"
  proof -
    have p: "image_from_previews mi = Some u"
      using assms(3) a b by (auto simp add: image_from_info_def image_from_original_def)
    then obtain v vs where vs: "mi_p mi = Some (v # vs)" and u: "var_u (max_from area v vs) = Some u"
      by (auto simp add: image_from_previews_def split: option.splits list.splits)
    show ?thesis
      using vs u max_from_greatest [of area v vs] by blast
  qed
  from scan res empty best orig prev show ?thesis by blast
qed

theorem image_entry_preference_witness:
  "map_of (media_metadata gallery_post) ''a''
     = Some (no_info\<lparr>mi_e := Some ''Image'',
                      mi_p := Some [\<lparr>var_x = Some 108, var_y = Some 81,
                                     var_u = Some ''https://preview.redd.it/a.jpg?width=108''\<rparr>,
                                    \<lparr>var_x = Some 640, var_y = Some 480,
                                     var_u = Some ''https://preview.redd.it/a.jpg?width=640&amp;s=9''\<rparr>,
                                    \<lparr>var_x = Some 320, var_y = Some 240,
                                     var_u = Some ''https://preview.redd.it/a.jpg?width=320''\<rparr>]\<rparr>)
   \<and> download_reddit_image gallery_post = Some ''https://preview.redd.it/a.jpg?width=640&s=9''
   \<and> map_of (media_metadata empty_url_post) ''a''
     = Some (no_info\<lparr>mi_e := Some ''Image'',
                      mi_s := Some \<lparr>var_x = Some 800, var_y = Some 600, var_u = Some []\<rparr>\<rparr>)
   \<and> map_of (media_metadata empty_url_post) ''b''
     = Some (no_info\<lparr>mi_e := Some ''Image'',
                      mi_s := Some \<lparr>var_x = Some 800, var_y = Some 600,
                                    var_u = Some ''https://preview.redd.it/b.jpg''\<rparr>\<rparr>)
   \<and> scan_images (media_metadata empty_url_post) (sort (map fst (media_metadata empty_url_post)))
     = Some []
   \<and> download_reddit_image empty_url_post = None"
proof -
  let ?a = "no_info\<lparr>mi_e := Some ''Image'',
                      mi_p := Some [\<lparr>var_x = Some 108, var_y = Some 81,
                                     var_u = Some ''https://preview.redd.it/a.jpg?width=108''\<rparr>,
                                    \<lparr>var_x = Some 640, var_y = Some 480,
                                     var_u = Some ''https://preview.redd.it/a.jpg?width=640&amp;s=9''\<rparr>,
                                    \<lparr>var_x = Some 320, var_y = Some 240,
                                     var_u = Some ''https://preview.redd.it/a.jpg?width=320''\<rparr>]\<rparr>"
  let ?e = "no_info\<lparr>mi_e := Some ''Image'',
                      mi_s := Some \<lparr>var_x = Some 800, var_y = Some 600, var_u = Some []\<rparr>\<rparr>"
  have 1: "map_of (media_metadata gallery_post) ''a'' = Some ?a"
    by (simp add: gallery_post_def two_images_post_def link_post_def)
  have 2: "mi_e ?a = Some ''Image''"
    by simp
  have 3: "image_from_info ?a = Some ''https://preview.redd.it/a.jpg?width=640&amp;s=9''"
    by (simp add: image_from_info_def image_from_original_def image_from_previews_def
          no_info_def area_def)
  have 4: "\<forall>k' mi'. k' < ''a'' \<and> map_of (media_metadata gallery_post) k' = Some mi'
           \<and> mi_e mi' = Some ''Image'' \<longrightarrow> image_from_info mi' = None"
    by (auto simp add: gallery_post_def two_images_post_def link_post_def split: if_splits)
  have g: "download_reddit_image gallery_post
        = Some (replace ''https://preview.redd.it/a.jpg?width=640&amp;s=9'' ''&amp;'' ''&'')"
    using image_entry_preference [OF 1 2 3 4] by simp
  have 5: "map_of (media_metadata empty_url_post) ''a'' = Some ?e"
    by (simp add: empty_url_post_def two_images_post_def link_post_def)
  have 6: "mi_e ?e = Some ''Image''"
    by simp
  have 7: "image_from_info ?e = Some []"
    by (simp add: image_from_info_def no_info_def)
  have 8: "\<forall>k' mi'. k' < ''a'' \<and> map_of (media_metadata empty_url_post) k' = Some mi'
           \<and> mi_e mi' = Some ''Image'' \<longrightarrow> image_from_info mi' = None"
    by (auto simp add: empty_url_post_def two_images_post_def link_post_def split: if_splits)
  have e: "scan_images (media_metadata empty_url_post)
             (sort (map fst (media_metadata empty_url_post))) = Some []
         \<and> download_reddit_image empty_url_post
           = download_reddit_image (empty_url_post\<lparr>media_metadata := []\<rparr>)"
    using image_entry_preference [OF 5 6 7 8] by simp
  have n: "download_reddit_image (empty_url_post\<lparr>media_metadata := []\<rparr>) = None"
    by (simp add: download_reddit_image_def image_from_preview_def empty_url_post_def
          two_images_post_def link_post_def truthy_def contains_any_def contains_def
          lower_def lower_char_def image_extensions_def)
  have b: "map_of (media_metadata empty_url_post) ''b''
     = Some (no_info\<lparr>mi_e := Some ''Image'',
                      mi_s := Some \<lparr>var_x = Some 800, var_y = Some 600,
                                    var_u = Some ''https://preview.redd.it/b.jpg''\<rparr>\<rparr>)"
    by (simp add: empty_url_post_def two_images_post_def link_post_def)
  from 1 g 5 b e n show ?thesis
    by (simp add: replace_def)
qed

subsection \<open>Manifest URLs go through the downloader\<close>

lemma unlink_if_exists_trace:
  "unlink_if_exists w name = (r, w') \<Longrightarrow>
   trace w' = trace w \<or> trace w' = trace w @ [Unlink name]"
  by (auto simp add: unlink_if_exists_def emit_def split: if_splits)

lemma find_SomeD: "find P xs = Some x \<Longrightarrow> x \<in> set xs \<and> P x"
  by (induction xs) (auto split: if_splits)

lemma run_downloader_result:
  assumes "run_downloader w name reddit_url = (r, w')"
  shows "(\<exists>evs. trace w' = trace w @ evs \<and> (\<forall>v. HttpGet v \<notin> set evs))
       \<and> (\<forall>p. r = Inr (Some p) \<longrightarrow>
            subprocess w (clock w) = Exit 0
            \<and> (\<exists>sz. (p, sz) \<in> set (fs_glob w (Suc (clock w)) (replace name ''.mp4'' [] @ ''.*''))
                    \<and> 0 < sz)
            \<and> trace w' = trace w @ [YtDlp (replace name ''.mp4'' ''.%(ext)s'') reddit_url])"
proof (cases "subprocess w (clock w)")
  case (Exit code)
  show ?thesis
  proof (cases "code = 0")
    case True
    with Exit assms show ?thesis
      by (auto simp add: run_downloader_def Let_def emit_def clock_def
            split: option.splits prod.splits dest!: find_SomeD)
  next
    case False
    let ?w2 = "emit (emit w (YtDlp (replace name ''.mp4'' ''.%(ext)s'') reddit_url))
                 (YtDlpListFormats reddit_url)"
    obtain r3 w3 where u1: "unlink_if_exists ?w2 name = (r3, w3)"
      by (cases "unlink_if_exists ?w2 name") auto
    obtain r4 w4 where u2: "unlink_if_exists w3 name = (r4, w4)"
      by (cases "unlink_if_exists w3 name") auto
    from unlink_if_exists_trace [OF u1] unlink_if_exists_trace [OF u2]
    have t: "\<exists>evs. trace w3 = trace w @ evs \<and> (\<forall>v. HttpGet v \<notin> set evs)"
            "\<exists>evs. trace w4 = trace w @ evs \<and> (\<forall>v. HttpGet v \<notin> set evs)"
      by (auto simp add: emit_def)
    from Exit False assms u1 u2 t show ?thesis
      by (auto simp add: run_downloader_def Let_def split: sum.splits)
  qed
next
  case ProcTimeout
  let ?w1 = "emit w (YtDlp (replace name ''.mp4'' ''.%(ext)s'') reddit_url)"
  obtain r2 w2 where u1: "unlink_if_exists ?w1 name = (r2, w2)"
    by (cases "unlink_if_exists ?w1 name") auto
  from unlink_if_exists_trace [OF u1]
  have "\<exists>evs. trace w2 = trace w @ evs \<and> (\<forall>v. HttpGet v \<notin> set evs)"
    by (auto simp add: emit_def)
  with ProcTimeout assms u1 show ?thesis
    by (auto simp add: run_downloader_def Let_def split: sum.splits)
next
  case ProcNotFound
  let ?w1 = "emit w (YtDlp (replace name ''.mp4'' ''.%(ext)s'') reddit_url)"
  obtain r2 w2 where u1: "unlink_if_exists ?w1 name = (r2, w2)"
    by (cases "unlink_if_exists ?w1 name") auto
  from unlink_if_exists_trace [OF u1]
  have "\<exists>evs. trace w2 = trace w @ evs \<and> (\<forall>v. HttpGet v \<notin> set evs)"
    by (auto simp add: emit_def)
  with ProcNotFound assms u1 show ?thesis
    by (auto simp add: run_downloader_def Let_def split: sum.splits)
next
  case ProcError
  let ?w1 = "emit w (YtDlp (replace name ''.mp4'' ''.%(ext)s'') reddit_url)"
  obtain r2 w2 where u1: "unlink_if_exists ?w1 name = (r2, w2)"
    by (cases "unlink_if_exists ?w1 name") auto
  from unlink_if_exists_trace [OF u1]
  have "\<exists>evs. trace w2 = trace w @ evs \<and> (\<forall>v. HttpGet v \<notin> set evs)"
    by (auto simp add: emit_def)
  with ProcError assms u1 show ?thesis
    by (auto simp add: run_downloader_def Let_def split: sum.splits)
qed

lemma convert_hls_to_mp4_result:
  assumes "convert_hls_to_mp4 w reddit_url = (r, w')"
  shows "(\<exists>evs. trace w' = trace w @ evs \<and> (\<forall>v. HttpGet v \<notin> set evs))
       \<and> (\<forall>p. r = Inr (Some p) \<longrightarrow>
            (\<exists>name sz. mktemp w (clock w) = Some name
               \<and> subprocess w (Suc (clock w)) = Exit 0
               \<and> (p, sz) \<in> set (fs_glob w (Suc (Suc (clock w))) (replace name ''.mp4'' [] @ ''.*''))
               \<and> 0 < sz
               \<and> trace w' = trace w @ [MkTemp, YtDlp (replace name ''.mp4'' ''.%(ext)s'') reddit_url]))"
proof (cases "mktemp w (clock w)")
  case None
  with assms show ?thesis
    by (auto simp add: convert_hls_to_mp4_def emit_def)
next
  case (Some name)
  obtain r1 w1 where run: "run_downloader (emit w MkTemp) name reddit_url = (r1, w1)"
    by (cases "run_downloader (emit w MkTemp) name reddit_url") auto
  obtain r2 w2 where u: "unlink_if_exists w1 name = (r2, w2)"
    by (cases "unlink_if_exists w1 name") auto
  from run_downloader_result [OF run]
  have t1: "\<exists>evs. trace w1 = trace w @ evs \<and> (\<forall>v. HttpGet v \<notin> set evs)"
    and ok: "\<forall>p. r1 = Inr (Some p) \<longrightarrow>
            subprocess w (Suc (clock w)) = Exit 0
            \<and> (\<exists>sz. (p, sz) \<in> set (fs_glob w (Suc (Suc (clock w))) (replace name ''.mp4'' [] @ ''.*''))
                    \<and> 0 < sz)
            \<and> trace w1 = trace w @ [MkTemp, YtDlp (replace name ''.mp4'' ''.%(ext)s'') reddit_url]"
    by (auto simp add: emit_def clock_def)
  from t1 unlink_if_exists_trace [OF u]
  have t2: "\<exists>evs. trace w2 = trace w @ evs \<and> (\<forall>v. HttpGet v \<notin> set evs)"
    by auto
  show ?thesis
  proof (cases r1)
    case (Inr res)
    with assms Some run have "r = Inr res" "w' = w1"
      by (simp_all add: convert_hls_to_mp4_def)
    with t1 ok Inr Some show ?thesis by auto
  next
    case (Inl e)
    with assms Some run u have "r \<noteq> Inr (Some p)" "w' = w1 \<or> w' = w2" for p
      by (auto simp add: convert_hls_to_mp4_def split: if_splits sum.splits)
    with t1 t2 show ?thesis by auto
  qed
qed

text \<open>
  C7. When the four methods select a URL that contains \<^verbatim>\<open>HLSPlaylist.m3u8\<close> or
  \<^verbatim>\<open>DASHPlaylist.mpd\<close>, the resolver is the call of \<^verbatim>\<open>convert_hls_to_mp4\<close> on the post's
  page URL: it issues no GET of any URL, and its result is \<^verbatim>\<open>None\<close> or a non-empty file that
  the pattern of the temporary name finds after the downloader has exited with code 0. The
  manifest URL itself is never the result.
\<close>

theorem manifest_url_transcoded:
  assumes "select_video_url post = Inr (Some u)"
    and "contains u ''HLSPlaylist.m3u8'' \<or> contains u ''DASHPlaylist.mpd''"
  shows "download_try w post = convert_hls_to_mp4 w (url post)
       \<and> (\<exists>evs. trace (snd (download_reddit_video w post)) = trace w @ evs
                \<and> (\<forall>v. HttpGet v \<notin> set evs))
       \<and> (fst (download_reddit_video w post) = None
          \<or> (\<exists>p name sz. fst (download_reddit_video w post) = Some p
                \<and> mktemp w (clock w) = Some name
                \<and> subprocess w (Suc (clock w)) = Exit 0
                \<and> (p, sz) \<in> set (fs_glob w (Suc (Suc (clock w))) (replace name ''.mp4'' [] @ ''.*''))
                \<and> 0 < sz
                \<and> trace (snd (download_reddit_video w post))
                    = trace w @ [MkTemp, YtDlp (replace name ''.mp4'' ''.%(ext)s'') (url post)]))"
proof -
  have ne: "u \<noteq> []"
    using assms(2) contains_nonempty [of u] by auto
  have any: "contains_any u manifest_markers"
    using assms(2) by (auto simp add: contains_any_def manifest_markers_def)
  have routed: "download_try w post = convert_hls_to_mp4 w (url post)"
    using assms ne any by (simp add: download_try_def truthy_def Let_def)
  obtain r w' where conv: "convert_hls_to_mp4 w (url post) = (r, w')"
    by (cases "convert_hls_to_mp4 w (url post)") auto
  note res = convert_hls_to_mp4_result [OF conv]
  have dl: "download_reddit_video w post = ((case r of Inr x \<Rightarrow> x | Inl e \<Rightarrow> None), w')"
    using routed conv by (simp add: download_reddit_video_def split: sum.splits)
  show ?thesis
  proof (cases r)
    case (Inl e)
    with dl res routed show ?thesis by simp
  next
    case (Inr x)
    show ?thesis
    proof (cases x)
      case None
      with Inr dl res routed show ?thesis by simp
    next
      case (Some p)
      with Inr dl res routed show ?thesis by auto
    qed
  qed
qed

theorem manifest_url_transcoded_witness:
  "select_video_url hosted_video_post = Inr (Some ''https://v.redd.it/abc/HLSPlaylist.m3u8?a=1&amp;b=2'')
   \<and> contains ''https://v.redd.it/abc/HLSPlaylist.m3u8?a=1&amp;b=2'' ''HLSPlaylist.m3u8''
   \<and> download_reddit_video (example_world (\<lambda>t. Http2xx)) hosted_video_post
     = (Some ''/tmp/tmpab12.f1.mp4'',
        (example_world (\<lambda>t. Http2xx))
          \<lparr>trace := [MkTemp, YtDlp ''/tmp/tmpab12.%(ext)s'' ''https://v.redd.it/abc'']\<rparr>)"
proof -
  have 1: "select_video_url hosted_video_post
           = Inr (Some ''https://v.redd.it/abc/HLSPlaylist.m3u8?a=1&amp;b=2'')"
    by (simp add: hosted_video_post_def link_post_def select_video_url_def video_from_media_def
          fallback_of_def video_from_metadata_def video_from_preview_def truthy_def)
  have 2: "contains ''https://v.redd.it/abc/HLSPlaylist.m3u8?a=1&amp;b=2'' ''HLSPlaylist.m3u8''"
    by simp
  have "download_try (example_world (\<lambda>t. Http2xx)) hosted_video_post
        = convert_hls_to_mp4 (example_world (\<lambda>t. Http2xx)) (url hosted_video_post)"
    using manifest_url_transcoded [OF 1 disjI1 [OF 2]] by blast
  then have "download_reddit_video (example_world (\<lambda>t. Http2xx)) hosted_video_post
     = (Some ''/tmp/tmpab12.f1.mp4'',
        (example_world (\<lambda>t. Http2xx))
          \<lparr>trace := [MkTemp, YtDlp ''/tmp/tmpab12.%(ext)s'' ''https://v.redd.it/abc'']\<rparr>)"
    by (simp add: download_reddit_video_def convert_hls_to_mp4_def run_downloader_def
          example_world_def clock_def emit_def replace_def hosted_video_post_def link_post_def)
  with 1 2 show ?thesis by blast
qed

end
